theory Spec2Isabelle
  imports Main
begin

section \<open>Python values\<close>

text \<open>
  The articles handled by the backend are the JSON objects of the news provider, carried
  through the code as untyped Python dicts. \<open>JNull\<close> is Python's \<open>None\<close>. A dict is an
  association list read with \<open>map_of\<close>: the first binding of a key is the dict's value.
\<close>

datatype json =
    JNull
  | JBool bool
  | JNum int
  | JStr string
  | JList "json list"
  | JDict "(string \<times> json) list"

type_synonym pydict = "(string \<times> json) list"

datatype pyerror =
    KeyError string
  | TypeError string
  | AttributeError string

text \<open>\<open>d[k]\<close>: raises KeyError when the key is absent.\<close>

definition getitem :: "pydict \<Rightarrow> string \<Rightarrow> pyerror + json" where
  "getitem d k = (case map_of d k of None \<Rightarrow> Inl (KeyError k) | Some v \<Rightarrow> Inr v)"

text \<open>\<open>d.get(k, default)\<close>: the default only replaces an absent key, not a null value.\<close>

definition dict_get :: "pydict \<Rightarrow> string \<Rightarrow> json \<Rightarrow> json" where
  "dict_get d k dflt = (case map_of d k of None \<Rightarrow> dflt | Some v \<Rightarrow> v)"

text \<open>\<open>isinstance(v, dict)\<close>\<close>

fun isinstance_dict :: "json \<Rightarrow> bool" where
  "isinstance_dict (JDict d) = True"
| "isinstance_dict v = False"

text \<open>\<open>str(e)\<close> of an exception, as the handlers put it into their error responses.\<close>

fun str_of_error :: "pyerror \<Rightarrow> string" where
  "str_of_error (KeyError k) = [CHR 0x27] @ k @ [CHR 0x27]"
| "str_of_error (TypeError m) = m"
| "str_of_error (AttributeError m) = m"


section \<open>The Supabase tables\<close>

text \<open>
  The store is the external Supabase service. Its \<open>news_articles\<close> table is a list of rows
  in insertion order; the table assigns the \<open>id\<close> of an inserted row, modelled by a counter.
  \<open>user_search_history\<close> is the join table written by \<open>log_user_search\<close> (its
  \<open>searched_at\<close> timestamp is left out: no operation reads it).
  The store is taken to be reachable: a call of the client library returns.
\<close>

record news_articles_row =
  row_id :: nat
  row_title :: json
  row_summary :: json
  row_content :: json
  row_source :: json
  row_published_at :: json
  row_url :: json
  row_image :: json

record search_history_row =
  sh_user_id :: string
  sh_news_id :: nat
  sh_session_id :: "string option"

record supabase =
  news_articles :: "news_articles_row list"
  news_articles_seq :: nat
  user_search_history :: "search_history_row list"

text \<open>\<open>supabase.table("news_articles").select("*").eq("url", u).execute().data\<close>\<close>

definition select_eq_url :: "supabase \<Rightarrow> json \<Rightarrow> news_articles_row list" where
  "select_eq_url db u = filter (\<lambda>r. row_url r = u) (news_articles db)"

text \<open>\<open>supabase.table("news_articles").insert({...}).execute()\<close>: the new row gets the next id.\<close>

definition insert_news_article ::
  "json \<Rightarrow> json \<Rightarrow> json \<Rightarrow> json \<Rightarrow> json \<Rightarrow> json \<Rightarrow> json \<Rightarrow> supabase
    \<Rightarrow> news_articles_row \<times> supabase" where
  "insert_news_article t s c src p u i db =
     (let r = \<lparr>row_id = news_articles_seq db, row_title = t, row_summary = s,
                row_content = c, row_source = src, row_published_at = p, row_url = u,
                row_image = i\<rparr>
      in (r, db\<lparr>news_articles := news_articles db @ [r],
                news_articles_seq := Suc (news_articles_seq db)\<rparr>))"


section \<open>news_storage.py\<close>

text \<open>
  The expression
  \<^verbatim>\<open>article["source"]["name"] if isinstance(article.get("source"), dict) else article["source"]\<close>
\<close>

definition article_source :: "pydict \<Rightarrow> pyerror + json" where
  "article_source article =
     (case dict_get article ''source'' JNull of
        JDict d \<Rightarrow> getitem d ''name''
      | _ \<Rightarrow> getitem article ''source'')"

text \<open>
  \<open>store_article_in_supabase(article)\<close>. The fields of the inserted row are evaluated in
  the order of the dict literal, so the first missing required key is the one raised.
\<close>

definition store_article_in_supabase ::
  "pydict \<Rightarrow> supabase \<Rightarrow> (pyerror + nat) \<times> supabase" where
  "store_article_in_supabase article db =
     (case getitem article ''url'' of
        Inl e \<Rightarrow> (Inl e, db)
      | Inr u \<Rightarrow>
          (case select_eq_url db u of
             r # _ \<Rightarrow> (Inr (row_id r), db)
           | [] \<Rightarrow>
               (case getitem article ''title'' of
                  Inl e \<Rightarrow> (Inl e, db)
                | Inr t \<Rightarrow>
                    (case article_source article of
                       Inl e \<Rightarrow> (Inl e, db)
                     | Inr src \<Rightarrow>
                         (case getitem article ''publishedAt'' of
                            Inl e \<Rightarrow> (Inl e, db)
                          | Inr p \<Rightarrow>
                              (let (r, db') =
                                     insert_news_article t
                                       (dict_get article ''summary'' (JStr []))
                                       (dict_get article ''content'' (JStr []))
                                       src p u
                                       (dict_get article ''urlToImage'' (JStr []))
                                       db
                               in (Inr (row_id r), db')))))))"

text \<open>\<open>log_user_search(user_id, news_id, session_id)\<close>\<close>

definition log_user_search :: "string \<Rightarrow> nat \<Rightarrow> string option \<Rightarrow> supabase \<Rightarrow> supabase" where
  "log_user_search user_id news_id session_id db =
     db\<lparr>user_search_history := user_search_history db @
          [\<lparr>sh_user_id = user_id, sh_news_id = news_id, sh_session_id = session_id\<rparr>]\<rparr>"

text \<open>
  Repeated calls of \<open>store_article_in_supabase\<close>, one after the other on the same store,
  each result kept (a call that raises does not stop the later ones).
\<close>

fun upsert_calls :: "pydict list \<Rightarrow> supabase \<Rightarrow> (pyerror + nat) list \<times> supabase" where
  "upsert_calls [] db = ([], db)"
| "upsert_calls (a # as) db =
     (let (r, db1) = store_article_in_supabase a db;
          (rs, db2) = upsert_calls as db1
      in (r # rs, db2))"

text \<open>The table's UNIQUE constraint on \<open>url\<close>.\<close>

definition url_unique :: "supabase \<Rightarrow> bool" where
  "url_unique db = distinct (map row_url (news_articles db))"

text \<open>
  A candidate with the fields the insert branch reads by subscript: \<open>url\<close>, \<open>title\<close>,
  \<open>source\<close> (with its \<open>name\<close> when it is a dict) and \<open>publishedAt\<close>.
\<close>

definition has_required_fields :: "pydict \<Rightarrow> bool" where
  "has_required_fields a =
     (\<not> isl (getitem a ''url'') \<and> \<not> isl (getitem a ''title'') \<and>
      \<not> isl (article_source a) \<and> \<not> isl (getitem a ''publishedAt''))"


section \<open>news_fetcher.py\<close>

text \<open>
  The news provider is outside the program: \<open>requests.get\<close> either raises a
  \<open>RequestException\<close> (no connection, timeout), or \<open>raise_for_status\<close> raises for an
  error status, or the body is the JSON object \<open>response.json()\<close>.
\<close>

datatype provider_reply =
    RequestException string
  | HTTPError nat
  | Body pydict

type_synonym provider = "string \<Rightarrow> provider_reply"

text \<open>
  \<open>fetch_news(keyword)\<close>. Both failure paths print and fall off the end of the function,
  so the value returned is \<open>None\<close>.
\<close>

definition fetch_news :: "provider \<Rightarrow> string \<Rightarrow> json" where
  "fetch_news api keyword =
     (case api keyword of
        RequestException m \<Rightarrow> JNull
      | HTTPError c \<Rightarrow> JNull
      | Body news_data \<Rightarrow>
          (if dict_get news_data ''status'' JNull = JStr ''ok''
           then dict_get news_data ''articles'' (JList [])
           else JNull))"


section \<open>The news fetch endpoint\<close>

fun type_name :: "json \<Rightarrow> string" where
  "type_name JNull = ''NoneType''"
| "type_name (JBool b) = ''bool''"
| "type_name (JNum n) = ''int''"
| "type_name (JStr s) = ''str''"
| "type_name (JList xs) = ''list''"
| "type_name (JDict d) = ''dict''"

text \<open>\<open>for x in v\<close>: the elements a Python value yields, or the TypeError of a value that
  is not iterable.\<close>

fun py_iter :: "json \<Rightarrow> pyerror + json list" where
  "py_iter (JList xs) = Inr xs"
| "py_iter (JStr s) = Inr (map (\<lambda>c. JStr [c]) s)"
| "py_iter (JDict d) = Inr (map JStr (remdups (map fst d)))"
| "py_iter v = Inl (TypeError ([CHR 0x27] @ type_name v @ [CHR 0x27] @ '' object is not iterable''))"

text \<open>\<open>if user_id:\<close> on a query parameter: present and not the empty string.\<close>

fun truthy_param :: "string option \<Rightarrow> bool" where
  "truthy_param None = False"
| "truthy_param (Some v) = (v \<noteq> [])"

record response =
  status_code :: nat
  body :: json

definition error_response :: "nat \<Rightarrow> string \<Rightarrow> response" where
  "error_response code msg =
     \<lparr>status_code = code, body = JDict [(''status'', JStr ''error''), (''message'', JStr msg)]\<rparr>"

text \<open>
  The loop of \<open>NewsFetch.get\<close> over the fetched articles. An exception leaves the loop;
  what was stored before it stays stored.
\<close>

fun store_articles ::
  "json list \<Rightarrow> string option \<Rightarrow> string option \<Rightarrow> nat list \<Rightarrow> supabase
    \<Rightarrow> (pyerror + nat list) \<times> supabase" where
  "store_articles [] user_id session_id stored_article_ids db = (Inr stored_article_ids, db)"
| "store_articles (article # rest) user_id session_id stored_article_ids db =
     (case article of
        JDict a \<Rightarrow>
          (case store_article_in_supabase a db of
             (Inl e, db1) \<Rightarrow> (Inl e, db1)
           | (Inr article_id, db1) \<Rightarrow>
               store_articles rest user_id session_id (stored_article_ids @ [article_id])
                 (case user_id of
                    Some u \<Rightarrow>
                      if truthy_param user_id then log_user_search u article_id session_id db1
                      else db1
                  | None \<Rightarrow> db1))
      | v \<Rightarrow>
          (Inl (AttributeError ([CHR 0x27] @ type_name v @ [CHR 0x27] @
                  '' object has no attribute '' @ [CHR 0x27] @ ''get'' @ [CHR 0x27])), db))"

text \<open>Truth value of a Python value, as \<open>x if articles else y\<close> tests it.\<close>

fun py_truthy :: "json \<Rightarrow> bool" where
  "py_truthy JNull = False"
| "py_truthy (JBool b) = b"
| "py_truthy (JNum n) = (n \<noteq> 0)"
| "py_truthy (JStr s) = (s \<noteq> [])"
| "py_truthy (JList xs) = (xs \<noteq> [])"
| "py_truthy (JDict d) = (d \<noteq> [])"

text \<open>\<open>len(v)\<close>: the TypeError of a value that has no length.\<close>

fun py_len :: "json \<Rightarrow> pyerror + nat" where
  "py_len (JList xs) = Inr (length xs)"
| "py_len (JStr s) = Inr (length s)"
| "py_len (JDict d) = Inr (length (remdups (map fst d)))"
| "py_len v = Inl (TypeError (''object of type '' @ [CHR 0x27] @ type_name v @ [CHR 0x27] @
                              '' has no len()''))"

text \<open>
  \<open>NewsFetch.get\<close> (the same in \<open>api_gateway.py\<close> and \<open>routes/news.py\<close>): the query
  parameters are \<open>request.args\<close>; every exception becomes a 500 response. The log line
  before the loop evaluates \<open>len(articles) if articles else 0\<close>.
\<close>

definition NewsFetch_get ::
  "provider \<Rightarrow> (string \<times> string) list \<Rightarrow> supabase \<Rightarrow> response \<times> supabase" where
  "NewsFetch_get api args db =
     (let keyword = (case map_of args ''keyword'' of None \<Rightarrow> [] | Some k \<Rightarrow> k);
          user_id = map_of args ''user_id'';
          session_id = map_of args ''session_id'';
          articles = fetch_news api keyword
      in case (if py_truthy articles then py_len articles else Inr 0) of
           Inl e \<Rightarrow> (error_response 500 (str_of_error e), db)
         | Inr found \<Rightarrow>
             (case py_iter articles of
                Inl e \<Rightarrow> (error_response 500 (str_of_error e), db)
              | Inr xs \<Rightarrow>
                  (case store_articles xs user_id session_id [] db of
                     (Inl e, db') \<Rightarrow> (error_response 500 (str_of_error e), db')
                   | (Inr stored_article_ids, db') \<Rightarrow>
                       (\<lparr>status_code = 200,
                         body = JDict [(''status'', JStr ''success''),
                                       (''data'',
                                        JList (map (\<lambda>i. JNum (int i)) stored_article_ids))]\<rparr>,
                        db'))))"


section \<open>The story tracking service\<close>

text \<open>
  \<open>backend/microservices/story_tracking_service.py\<close> is imported by the gateway but is
  not among the source files. Its data and operations are modelled from the specification
  (sections 3, 4.2, 4.3, 4.4 and 6); the deduplicator they call is
  \<open>store_article_in_supabase\<close> above and the fetch adapter is \<open>fetch_news\<close>.
  Identifiers are opaque; they are numbers here. The current time is an argument of
  the operations that write a timestamp.
\<close>

datatype story_status = ACTIVE | DELETED

record tracked_story =
  st_id :: nat
  st_owner_user_id :: string
  st_keyword :: string
  st_created_at :: nat
  st_status :: story_status
  st_source_article_id :: "nat option"

record story_article_link =
  link_story_id :: nat
  link_article_id :: nat
  linked_at :: nat

record engine =
  article_store :: supabase
  tracked_stories :: "tracked_story list"
  story_article_links :: "story_article_link list"
  tracked_stories_seq :: nat

definition empty_store :: supabase where
  "empty_store = \<lparr>news_articles = [], news_articles_seq = 0, user_search_history = []\<rparr>"

definition init_engine :: engine where
  "init_engine = \<lparr>article_store = empty_store, tracked_stories = [],
                   story_article_links = [], tracked_stories_seq = 0\<rparr>"

subsection \<open>Relatedness matcher\<close>

text \<open>Whitespace as Python's \<open>str.strip\<close> sees it in ASCII, and ASCII lower-casing.\<close>

definition is_space :: "char \<Rightarrow> bool" where
  "is_space c = (c = CHR '' '' \<or> c = CHR 0x09 \<or> c = CHR 0x0A \<or> c = CHR 0x0B
                 \<or> c = CHR 0x0C \<or> c = CHR 0x0D \<or> c = CHR 0x1C \<or> c = CHR 0x1D
                 \<or> c = CHR 0x1E \<or> c = CHR 0x1F)"

definition strip :: "string \<Rightarrow> string" where
  "strip s = rev (dropWhile is_space (rev (dropWhile is_space s)))"

definition lower_char :: "char \<Rightarrow> char" where
  "lower_char c =
     (case map_of (zip ''ABCDEFGHIJKLMNOPQRSTUVWXYZ'' ''abcdefghijklmnopqrstuvwxyz'') c of
        None \<Rightarrow> c
      | Some l \<Rightarrow> l)"

definition lower :: "string \<Rightarrow> string" where
  "lower s = map lower_char s"

fun starts_with :: "string \<Rightarrow> string \<Rightarrow> bool" where
  "starts_with s [] = True"
| "starts_with [] (p # ps) = False"
| "starts_with (c # cs) (p # ps) = (c = p \<and> starts_with cs ps)"

text \<open>\<open>needle in haystack\<close>: the needle occurs as a contiguous substring.\<close>

fun occurs_in :: "string \<Rightarrow> string \<Rightarrow> bool" where
  "occurs_in needle [] = (needle = [])"
| "occurs_in needle (c # cs) = (starts_with (c # cs) needle \<or> occurs_in needle cs)"

text \<open>A text field of an article; a missing, null or non-text field reads as the empty
  string.\<close>

definition text_field :: "pydict \<Rightarrow> string \<Rightarrow> string" where
  "text_field article k = (case map_of article k of Some (JStr s) \<Rightarrow> s | _ \<Rightarrow> [])"

text \<open>
  Modelled from the spec: \<open>isRelated(story, article)\<close> of the missing
  \<open>story_tracking_service.py\<close> (section 4.2): the trimmed, lower-cased keyword occurs in
  the lower-cased title, content or summary; an empty keyword matches nothing.
\<close>

definition isRelated :: "tracked_story \<Rightarrow> pydict \<Rightarrow> bool" where
  "isRelated story article =
     (let kw = lower (strip (st_keyword story))
      in if kw = [] then False
         else occurs_in kw (lower (text_field article ''title''))
            \<or> occurs_in kw (lower (text_field article ''content''))
            \<or> occurs_in kw (lower (text_field article ''summary'')))"

subsection \<open>Links\<close>

datatype link_result = Linked | AlreadyLinked

definition link_pair :: "story_article_link \<Rightarrow> nat \<times> nat" where
  "link_pair l = (link_story_id l, link_article_id l)"

text \<open>
  Modelled from the spec: \<open>linkStoryArticle(storyId, articleId) -> ok | alreadyLinked\<close>
  of the missing store interface (sections 3, 4.4 and 6): an existing pair is left alone.
\<close>

definition linkStoryArticle :: "nat \<Rightarrow> nat \<Rightarrow> nat \<Rightarrow> engine \<Rightarrow> link_result \<times> engine" where
  "linkStoryArticle storyId articleId now s =
     (if (storyId, articleId) \<in> set (map link_pair (story_article_links s))
      then (AlreadyLinked, s)
      else (Linked,
            s\<lparr>story_article_links := story_article_links s @
                 [\<lparr>link_story_id = storyId, link_article_id = articleId, linked_at = now\<rparr>]\<rparr>))"

subsection \<open>Refresh pass\<close>

datatype engine_error =
    InvalidInput
  | UpstreamUnavailable
  | StoreFailure pyerror

datatype pass_report =
    Skipped
  | FetchFailed
  | StoreFailed pyerror
  | Refreshed nat nat

text \<open>The typed boundary of the fetch adapter: a list of JSON objects, or nothing.\<close>

fun raw_articles :: "json list \<Rightarrow> pydict list option" where
  "raw_articles [] = Some []"
| "raw_articles (JDict a # rest) =
     (case raw_articles rest of None \<Rightarrow> None | Some as \<Rightarrow> Some (a # as))"
| "raw_articles (v # rest) = None"

text \<open>
  Modelled from the spec: the fetch adapter \<open>fetch(keyword) -> list[RawArticle]\<close> that
  the missing service builds on \<open>fetch_news\<close> (section 6): anything but a list of
  articles is a failed fetch.
\<close>

definition fetch_candidates :: "provider \<Rightarrow> string \<Rightarrow> engine_error + pydict list" where
  "fetch_candidates api kw =
     (case fetch_news api kw of
        JList xs \<Rightarrow>
          (case raw_articles xs of None \<Rightarrow> Inl UpstreamUnavailable | Some as \<Rightarrow> Inr as)
      | _ \<Rightarrow> Inl UpstreamUnavailable)"

text \<open>
  Modelled from the spec: steps 2 to 4 of the refresh pass of the missing
  \<open>story_tracking_service.py\<close> (section 4.4): deduplicate each candidate, link it when
  it is related, count the articles seen and the links created. A store failure ends the pass
  for this story; what was written before it stays.
\<close>

fun match_candidates ::
  "tracked_story \<Rightarrow> nat \<Rightarrow> pydict list \<Rightarrow> nat \<Rightarrow> nat \<Rightarrow> engine \<Rightarrow> pass_report \<times> engine" where
  "match_candidates story now [] seen new s = (Refreshed seen new, s)"
| "match_candidates story now (a # rest) seen new s =
     (case store_article_in_supabase a (article_store s) of
        (Inl e, db) \<Rightarrow> (StoreFailed e, s\<lparr>article_store := db\<rparr>)
      | (Inr articleId, db) \<Rightarrow>
          (if isRelated story a
           then (case linkStoryArticle (st_id story) articleId now (s\<lparr>article_store := db\<rparr>) of
                   (Linked, s') \<Rightarrow> match_candidates story now rest (Suc seen) (Suc new) s'
                 | (AlreadyLinked, s') \<Rightarrow> match_candidates story now rest (Suc seen) new s')
           else match_candidates story now rest (Suc seen) new (s\<lparr>article_store := db\<rparr>)))"

text \<open>
  Modelled from the spec: the refresh pass for one story of the missing
  \<open>story_tracking_service.py\<close> (sections 4.2 and 4.4): a story whose keyword is empty
  after trimming is skipped; a failed fetch gives no candidates and is reported.
\<close>

definition refresh_story :: "provider \<Rightarrow> nat \<Rightarrow> tracked_story \<Rightarrow> engine \<Rightarrow> pass_report \<times> engine" where
  "refresh_story api now story s =
     (if lower (strip (st_keyword story)) = [] then (Skipped, s)
      else (case fetch_candidates api (st_keyword story) of
              Inl e \<Rightarrow> (FetchFailed, s)
            | Inr candidates \<Rightarrow> match_candidates story now candidates 0 0 s))"



subsection \<open>Story operations\<close>

text \<open>
  Modelled from the spec: \<open>createTrackedStory(userId, keyword, sourceArticleId?)\<close> of the
  missing \<open>story_tracking_service.py\<close> (sections 4.3 and 7): the keyword is validated,
  the story is created ACTIVE, the seed article is linked, one refresh pass runs; a failure
  of that pass is surfaced to the caller.
\<close>

definition createTrackedStory ::
  "provider \<Rightarrow> nat \<Rightarrow> string \<Rightarrow> string \<Rightarrow> nat option \<Rightarrow> engine
    \<Rightarrow> (engine_error + tracked_story) \<times> engine" where
  "createTrackedStory api now userId kw sourceArticleId s =
     (if kw = [] then (Inl InvalidInput, s)
      else
        (let story = \<lparr>st_id = tracked_stories_seq s, st_owner_user_id = userId,
                      st_keyword = kw, st_created_at = now, st_status = ACTIVE,
                      st_source_article_id = sourceArticleId\<rparr>;
             s1 = s\<lparr>tracked_stories := tracked_stories s @ [story],
                    tracked_stories_seq := Suc (tracked_stories_seq s)\<rparr>;
             s2 = (case sourceArticleId of
                     None \<Rightarrow> s1
                   | Some articleId \<Rightarrow> snd (linkStoryArticle (st_id story) articleId now s1));
             (rep, s3) = refresh_story api now story s2
         in (case rep of
               FetchFailed \<Rightarrow> (Inl UpstreamUnavailable, s3)
             | StoreFailed e \<Rightarrow> (Inl (StoreFailure e), s3)
             | _ \<Rightarrow> (Inr story, s3))))"

definition find_story :: "nat \<Rightarrow> engine \<Rightarrow> tracked_story option" where
  "find_story storyId s = find (\<lambda>st. st_id st = storyId) (tracked_stories s)"

definition linked_articles :: "nat \<Rightarrow> engine \<Rightarrow> news_articles_row list" where
  "linked_articles storyId s =
     filter (\<lambda>r. (storyId, row_id r) \<in> set (map link_pair (story_article_links s)))
       (news_articles (article_store s))"

text \<open>
  Modelled from the spec: \<open>getStoryDetails(storyId)\<close> of the missing
  \<open>story_tracking_service.py\<close> (section 4.3): read-only; not found when the story does
  not exist or is DELETED.
\<close>

definition getStoryDetails :: "nat \<Rightarrow> engine \<Rightarrow> (tracked_story \<times> news_articles_row list) option" where
  "getStoryDetails storyId s =
     (case find_story storyId s of
        None \<Rightarrow> None
      | Some st \<Rightarrow>
          (if st_status st = DELETED then None else Some (st, linked_articles storyId s)))"

text \<open>
  Modelled from the spec: \<open>deleteTrackedStory(userId, storyId)\<close> of the missing
  \<open>story_tracking_service.py\<close> (section 4.3): succeeds only for an existing ACTIVE story
  of the caller, whose status becomes DELETED (its links stay); false otherwise.
\<close>

definition deleteTrackedStory :: "string \<Rightarrow> nat \<Rightarrow> engine \<Rightarrow> bool \<times> engine" where
  "deleteTrackedStory userId storyId s =
     (case find_story storyId s of
        None \<Rightarrow> (False, s)
      | Some st \<Rightarrow>
          (if st_status st = ACTIVE \<and> st_owner_user_id st = userId
           then (True,
                 s\<lparr>tracked_stories :=
                     map (\<lambda>t. if st_id t = storyId then t\<lparr>st_status := DELETED\<rparr> else t)
                       (tracked_stories s)\<rparr>)
           else (False, s)))"



section \<open>The story tracking endpoints of api_gateway.py\<close>

text \<open>
  \<open>jwt.decode\<close> belongs to the authentication collaborator. A request either has no
  Authorization header, or a header whose token does not decode (with the message of the
  exception), or a token of audience \<open>authenticated\<close> whose \<open>sub\<close> is the user id.
\<close>

datatype auth = NoHeader | InvalidToken string | Authenticated string

text \<open>The decorator \<open>token_required\<close>.\<close>

definition token_required ::
  "auth \<Rightarrow> (string \<Rightarrow> engine \<Rightarrow> response \<times> engine) \<Rightarrow> engine \<Rightarrow> response \<times> engine" where
  "token_required a f s =
     (case a of
        NoHeader \<Rightarrow>
          (\<lparr>status_code = 401,
            body = JDict [(''error'', JStr ''Authorization header missing'')]\<rparr>, s)
      | InvalidToken msg \<Rightarrow>
          (\<lparr>status_code = 401,
            body = JDict [(''error'', JStr ''Invalid token''), (''message'', JStr msg)]\<rparr>, s)
      | Authenticated user_id \<Rightarrow> f user_id s)"

definition success_message :: "nat \<Rightarrow> string \<Rightarrow> response" where
  "success_message code msg =
     \<lparr>status_code = code,
      body = JDict [(''status'', JStr ''success''), (''message'', JStr msg)]\<rparr>"

definition success_data :: "nat \<Rightarrow> json \<Rightarrow> response" where
  "success_data code d =
     \<lparr>status_code = code, body = JDict [(''status'', JStr ''success''), (''data'', d)]\<rparr>"

definition row_json :: "news_articles_row \<Rightarrow> json" where
  "row_json r =
     JDict [(''id'', JNum (int (row_id r))), (''title'', row_title r),
            (''summary'', row_summary r), (''content'', row_content r),
            (''source'', row_source r), (''published_at'', row_published_at r),
            (''url'', row_url r), (''image'', row_image r)]"

text \<open>
  Modelled from the spec: the dict that \<open>get_story_details\<close> of the missing
  \<open>story_tracking_service.py\<close> returns to the gateway, which reads its \<open>id\<close>,
  \<open>keyword\<close> and \<open>articles\<close>.
\<close>

definition story_json :: "tracked_story \<times> news_articles_row list \<Rightarrow> json" where
  "story_json d =
     (case d of (st, rows) \<Rightarrow>
        JDict [(''id'', JNum (int (st_id st))), (''user_id'', JStr (st_owner_user_id st)),
               (''keyword'', JStr (st_keyword st)),
               (''created_at'', JNum (int (st_created_at st))),
               (''articles'', JList (map row_json rows))])"

fun str_of_engine_error :: "engine_error \<Rightarrow> string" where
  "str_of_engine_error InvalidInput = ''InvalidInput''"
| "str_of_engine_error UpstreamUnavailable = ''UpstreamUnavailable''"
| "str_of_engine_error (StoreFailure e) = str_of_error e"

text \<open>The JSON body of the create request: \<open>keyword\<close> a string when present,
  \<open>sourceArticleId\<close> an article id when present.\<close>

record create_request =
  req_keyword :: "string option"
  req_sourceArticleId :: "nat option"

text \<open>\<open>if not keyword:\<close> is taken for a missing and for an empty keyword.\<close>

fun not_keyword :: "string option \<Rightarrow> bool" where
  "not_keyword None = True"
| "not_keyword (Some k) = (k = [])"

text \<open>The body of \<open>StoryTracking.post\<close>; an exception of the service becomes a 500.\<close>

definition StoryTracking_post ::
  "provider \<Rightarrow> nat \<Rightarrow> create_request \<Rightarrow> string \<Rightarrow> engine \<Rightarrow> response \<times> engine" where
  "StoryTracking_post api now data user_id s =
     (if not_keyword (req_keyword data) then (error_response 400 ''Keyword is required'', s)
      else
        (case req_keyword data of
           None \<Rightarrow> (error_response 400 ''Keyword is required'', s)
         | Some keyword \<Rightarrow>
             (case createTrackedStory api now user_id keyword (req_sourceArticleId data) s of
                (Inl e, s') \<Rightarrow> (error_response 500 (str_of_engine_error e), s')
              | (Inr tracked_story, s') \<Rightarrow>
                  (success_data 201
                     (case getStoryDetails (st_id tracked_story) s' of
                        None \<Rightarrow> JNull
                      | Some story_with_articles \<Rightarrow> story_json story_with_articles),
                   s'))))"

text \<open>The body of \<open>StoryTrackingDetail.get\<close>.\<close>

definition StoryTrackingDetail_get :: "nat \<Rightarrow> engine \<Rightarrow> response \<times> engine" where
  "StoryTrackingDetail_get story_id s =
     (case getStoryDetails story_id s of
        None \<Rightarrow> (error_response 404 ''Tracked story not found'', s)
      | Some story \<Rightarrow> (success_data 200 (story_json story), s))"

text \<open>The body of \<open>StoryTrackingDetail.delete\<close>.\<close>

definition StoryTrackingDetail_delete :: "nat \<Rightarrow> string \<Rightarrow> engine \<Rightarrow> response \<times> engine" where
  "StoryTrackingDetail_delete story_id user_id s =
     (case deleteTrackedStory user_id story_id s of
        (success, s') \<Rightarrow>
          (if \<not> success
           then (error_response 404 ''Failed to delete tracked story or story not found'', s')
           else (success_message 200 ''Tracked story deleted successfully'', s')))"


section \<open>Invariants\<close>

text \<open>The uniqueness constraint of \<open>story_article_links\<close> on \<open>(story_id, article_id)\<close>.\<close>

definition links_unique :: "engine \<Rightarrow> bool" where
  "links_unique s = distinct (map link_pair (story_article_links s))"



section \<open>Sample data\<close>

definition sample_article :: pydict where
  "sample_article =
     [(''title'', JStr ''ai breakthroughs''), (''url'', JStr ''https://example.org/a''),
      (''source'', JDict [(''id'', JNull), (''name'', JStr ''Example News'')]),
      (''publishedAt'', JStr ''2025-01-01T00:00:00Z'')]"

definition sample_refetch :: pydict where
  "sample_refetch =
     [(''title'', JStr ''AI breakthroughs (updated)''), (''url'', JStr ''https://example.org/a''),
      (''source'', JStr ''Example News''),
      (''publishedAt'', JStr ''2025-01-02T00:00:00Z''), (''content'', JStr ''new text'')]"

definition sample_empty_url :: pydict where
  "sample_empty_url =
     [(''title'', JStr ''untitled''), (''url'', JStr []),
      (''source'', JStr ''wire''), (''publishedAt'', JStr ''2025-01-01T00:00:00Z'')]"

definition sample_provider :: provider where
  "sample_provider kw =
     Body [(''status'', JStr ''ok''), (''articles'', JList [JDict sample_article])]"

definition failing_provider :: provider where
  "failing_provider kw = RequestException ''connection refused''"

definition error_status_provider :: provider where
  "error_status_provider kw =
     Body [(''status'', JStr ''error''), (''code'', JStr ''rateLimited''),
           (''message'', JStr ''You have made too many requests.'')]"

definition sample_story :: tracked_story where
  "sample_story = \<lparr>st_id = 0, st_owner_user_id = ''alice'', st_keyword = ''AI'',
                    st_created_at = 5, st_status = ACTIVE, st_source_article_id = None\<rparr>"


section \<open>Properties of the article store\<close>

lemma store_existing:
  "getitem a ''url'' = Inr u \<Longrightarrow> select_eq_url db u = r # rs \<Longrightarrow>
   store_article_in_supabase a db = (Inr (row_id r), db)"
  by (simp add: store_article_in_supabase_def)

lemma store_new:
  assumes "getitem a ''url'' = Inr u" "select_eq_url db u = []"
    "store_article_in_supabase a db = (Inr i, db')"
  shows "\<exists>r. news_articles db' = news_articles db @ [r] \<and> row_id r = i \<and> row_url r = u"
  using assms
  by (auto simp: store_article_in_supabase_def insert_news_article_def Let_def
      split: sum.splits)

lemma store_required:
  assumes "has_required_fields a"
  shows "\<exists>i. fst (store_article_in_supabase a db) = Inr i"
  using assms
  by (auto simp: has_required_fields_def store_article_in_supabase_def
      insert_news_article_def Let_def split: sum.splits list.splits)

lemma distinct_filter_le1:
  "distinct (map f xs) \<Longrightarrow> length (filter (\<lambda>r. f r = u) xs) \<le> Suc 0"
proof (induction xs)
  case Nil
  then show ?case by simp
next
  case (Cons x xs)
  show ?case
  proof (cases "f x = u")
    case True
    from Cons.prems have "f x \<notin> f ` set xs" by simp
    with True have "\<forall>r\<in>set xs. f r \<noteq> u" by blast
    then have "filter (\<lambda>r. f r = u) xs = []"
      by (simp add: filter_empty_conv)
    with True show ?thesis by simp
  next
    case False
    with Cons show ?thesis by simp
  qed
qed

lemma select_unique_single:
  assumes "url_unique db" "select_eq_url db u = r # rs"
  shows "rs = []"
proof -
  have "length (select_eq_url db u) \<le> Suc 0"
    using assms(1) unfolding url_unique_def select_eq_url_def by (rule distinct_filter_le1)
  with assms(2) show ?thesis by simp
qed

lemma calls_on_existing:
  assumes "\<forall>b\<in>set as. getitem b ''url'' = Inr u" "select_eq_url db u = r # rs"
  shows "upsert_calls as db = (replicate (length as) (Inr (row_id r)), db)"
  using assms
  by (induction as) (simp_all add: store_existing)

lemma first_call_row:
  assumes "url_unique db" "getitem a ''url'' = Inr u"
    "store_article_in_supabase a db = (Inr i, db1)"
  shows "\<exists>row. select_eq_url db1 u = [row] \<and> row_id row = i"
proof (cases "select_eq_url db u")
  case Nil
  from store_new[OF assms(2) Nil assms(3)] obtain r where
    r: "news_articles db1 = news_articles db @ [r]" "row_id r = i" "row_url r = u" by blast
  have "select_eq_url db1 u = select_eq_url db u @ [r]"
    using r by (simp add: select_eq_url_def)
  with Nil r show ?thesis by simp
next
  case (Cons r rs)
  with assms have "rs = []" by (simp add: select_unique_single)
  moreover have "store_article_in_supabase a db = (Inr (row_id r), db)"
    using assms(2) Cons by (rule store_existing)
  ultimately show ?thesis using assms(3) Cons by simp
qed

lemma sample_article_stored:
  "store_article_in_supabase sample_article empty_store =
     (Inr 0,
      \<lparr>news_articles =
         [\<lparr>row_id = 0, row_title = JStr ''ai breakthroughs'', row_summary = JStr [],
           row_content = JStr [], row_source = JStr ''Example News'',
           row_published_at = JStr ''2025-01-01T00:00:00Z'',
           row_url = JStr ''https://example.org/a'', row_image = JStr []\<rparr>],
       news_articles_seq = Suc 0, user_search_history = []\<rparr>)"
  by (simp add: store_article_in_supabase_def sample_article_def empty_store_def getitem_def
      select_eq_url_def article_source_def dict_get_def insert_news_article_def Let_def)

lemma sample_urls:
  "getitem sample_article ''url'' = Inr (JStr ''https://example.org/a'')"
  "getitem sample_refetch ''url'' = Inr (JStr ''https://example.org/a'')"
  by (simp_all add: sample_article_def sample_refetch_def getitem_def)

text \<open>
  C1. A candidate whose url is already in the article table gets the id of the existing row
  and the table is left as it was. A candidate with the required fields always gets an id.
  Hence, on a table with unique urls, when a first call for a url returns an id, every later
  call for that url returns the same id, and the table then holds exactly one row for the url.
\<close>

theorem upsert_dedup_idempotent:
  assumes "getitem a ''url'' = Inr u"
  shows "(select_eq_url db u = r # rs \<longrightarrow>
            store_article_in_supabase a db = (Inr (row_id r), db))
       \<and> (has_required_fields a \<longrightarrow> (\<exists>j. fst (store_article_in_supabase a db) = Inr j))
       \<and> (url_unique db \<and> (\<forall>b\<in>set as. getitem b ''url'' = Inr u)
            \<and> fst (store_article_in_supabase a db) = Inr i \<longrightarrow>
            fst (upsert_calls (a # as) db) = replicate (Suc (length as)) (Inr i)
            \<and> (\<exists>row. select_eq_url (snd (upsert_calls (a # as) db)) u = [row] \<and> row_id row = i))"
proof (intro conjI impI)
  assume "select_eq_url db u = r # rs"
  with assms show "store_article_in_supabase a db = (Inr (row_id r), db)"
    by (rule store_existing)
next
  assume "has_required_fields a"
  then show "\<exists>j. fst (store_article_in_supabase a db) = Inr j" by (rule store_required)
next
  assume h: "url_unique db \<and> (\<forall>b\<in>set as. getitem b ''url'' = Inr u)
            \<and> fst (store_article_in_supabase a db) = Inr i"
  obtain db1 where db1: "store_article_in_supabase a db = (Inr i, db1)"
    using h by (cases "store_article_in_supabase a db") simp
  from first_call_row[OF _ assms db1] h obtain row where
    row: "select_eq_url db1 u = [row]" "row_id row = i" by blast
  have rest: "upsert_calls as db1 = (replicate (length as) (Inr i), db1)"
    using calls_on_existing[of as u db1 row "[]"] h row by simp
  show "fst (upsert_calls (a # as) db) = replicate (Suc (length as)) (Inr i)"
    using db1 rest by simp
  show "\<exists>row. select_eq_url (snd (upsert_calls (a # as) db)) u = [row] \<and> row_id row = i"
    using db1 rest row by simp
qed

theorem upsert_dedup_idempotent_witness:
  "getitem sample_article ''url'' = Inr (JStr ''https://example.org/a'')
   \<and> has_required_fields sample_article
   \<and> url_unique empty_store
   \<and> getitem sample_refetch ''url'' = Inr (JStr ''https://example.org/a'')
   \<and> fst (store_article_in_supabase sample_article empty_store) = Inr 0
   \<and> fst (upsert_calls [sample_article, sample_refetch, sample_article] empty_store)
       = [Inr 0, Inr 0, Inr 0]
   \<and> (\<exists>row. select_eq_url
               (snd (upsert_calls [sample_article, sample_refetch, sample_article] empty_store))
               (JStr ''https://example.org/a'') = [row] \<and> row_id row = 0)
   \<and> (\<exists>r rs. select_eq_url (snd (store_article_in_supabase sample_article empty_store))
                 (JStr ''https://example.org/a'') = r # rs
        \<and> store_article_in_supabase sample_refetch
             (snd (store_article_in_supabase sample_article empty_store))
           = (Inr (row_id r), snd (store_article_in_supabase sample_article empty_store)))"
proof -
  have u: "getitem sample_article ''url'' = Inr (JStr ''https://example.org/a'')"
    by (rule sample_urls)
  have req: "has_required_fields sample_article"
    by (simp add: has_required_fields_def sample_article_def getitem_def article_source_def
        dict_get_def)
  have uniq: "url_unique empty_store"
    by (simp add: url_unique_def empty_store_def)
  have urls: "\<forall>b\<in>set [sample_refetch, sample_article].
         getitem b ''url'' = Inr (JStr ''https://example.org/a'')"
    by (simp add: sample_urls)
  have first: "fst (store_article_in_supabase sample_article empty_store) = Inr 0"
    by (simp add: sample_article_stored)
  have sel: "select_eq_url (snd (store_article_in_supabase sample_article empty_store))
       (JStr ''https://example.org/a'')
     = [\<lparr>row_id = 0, row_title = JStr ''ai breakthroughs'', row_summary = JStr [],
           row_content = JStr [], row_source = JStr ''Example News'',
           row_published_at = JStr ''2025-01-01T00:00:00Z'',
           row_url = JStr ''https://example.org/a'', row_image = JStr []\<rparr>]"
    by (simp add: sample_article_stored select_eq_url_def)
  note seq = upsert_dedup_idempotent[OF u, of empty_store _ _ "[sample_refetch, sample_article]" 0]
  note one = upsert_dedup_idempotent[OF sample_urls(2),
      of "snd (store_article_in_supabase sample_article empty_store)" _ "[]" "[]" 0]
  from seq uniq urls first
  have a: "fst (upsert_calls [sample_article, sample_refetch, sample_article] empty_store)
       = [Inr 0, Inr 0, Inr 0]
   \<and> (\<exists>row. select_eq_url
               (snd (upsert_calls [sample_article, sample_refetch, sample_article] empty_store))
               (JStr ''https://example.org/a'') = [row] \<and> row_id row = 0)"
    by (simp add: numeral_3_eq_3)
  from one sel
  have b: "\<exists>r rs. select_eq_url (snd (store_article_in_supabase sample_article empty_store))
                 (JStr ''https://example.org/a'') = r # rs
        \<and> store_article_in_supabase sample_refetch
             (snd (store_article_in_supabase sample_article empty_store))
           = (Inr (row_id r), snd (store_article_in_supabase sample_article empty_store))"
    by blast
  from u req uniq sample_urls(2) first a[THEN conjunct1] a[THEN conjunct2] b
  show ?thesis by (intro conjI)
qed


lemma store_insert:
  assumes "getitem a ''url'' = Inr u" "select_eq_url db u = []"
    "getitem a ''title'' = Inr t" "article_source a = Inr src"
    "getitem a ''publishedAt'' = Inr p"
  shows "store_article_in_supabase a db =
     (Inr (news_articles_seq db),
      db\<lparr>news_articles := news_articles db @
            [\<lparr>row_id = news_articles_seq db, row_title = t,
              row_summary = dict_get a ''summary'' (JStr []),
              row_content = dict_get a ''content'' (JStr []),
              row_source = src, row_published_at = p, row_url = u,
              row_image = dict_get a ''urlToImage'' (JStr [])\<rparr>],
         news_articles_seq := Suc (news_articles_seq db)\<rparr>)"
  using assms
  by (simp add: store_article_in_supabase_def insert_news_article_def Let_def)

lemma required_fieldsD:
  assumes "has_required_fields a"
  obtains t src p where "getitem a ''title'' = Inr t" "article_source a = Inr src"
    "getitem a ''publishedAt'' = Inr p"
proof -
  from assms have "\<not> isl (getitem a ''title'')" "\<not> isl (article_source a)"
    "\<not> isl (getitem a ''publishedAt'')"
    by (simp_all add: has_required_fields_def)
  then obtain t src p where "getitem a ''title'' = Inr t" "article_source a = Inr src"
    "getitem a ''publishedAt'' = Inr p"
    by (cases "getitem a ''title''"; cases "article_source a"; cases "getitem a ''publishedAt''")
      simp_all
  then show thesis by (rule that)
qed

text \<open>
  C5. When the candidate's url is already in the table, the call writes nothing: the store
  after the call is the store before it, so every field of the existing row is as the first
  write left it, also after any number of re-fetches of that url.
\<close>

theorem upsert_first_write_wins:
  assumes "getitem a ''url'' = Inr u" and "row \<in> set (news_articles db)" and "row_url row = u"
  shows "snd (store_article_in_supabase a db) = db
       \<and> ((\<forall>b\<in>set bs. getitem b ''url'' = Inr u) \<longrightarrow> snd (upsert_calls bs db) = db)"
proof -
  from assms(2,3) have "row \<in> set (select_eq_url db u)"
    by (simp add: select_eq_url_def)
  then obtain r rs where sel: "select_eq_url db u = r # rs"
    by (cases "select_eq_url db u") auto
  have one: "snd (store_article_in_supabase a db) = db"
    using store_existing[OF assms(1) sel] by simp
  have many: "(\<forall>b\<in>set bs. getitem b ''url'' = Inr u) \<longrightarrow> snd (upsert_calls bs db) = db"
    using calls_on_existing[of bs u db r rs] sel by simp
  from one many show ?thesis by simp
qed

theorem upsert_first_write_wins_witness:
  "news_articles (snd (store_article_in_supabase sample_refetch
      (snd (store_article_in_supabase sample_article empty_store))))
   = [\<lparr>row_id = 0, row_title = JStr ''ai breakthroughs'', row_summary = JStr [],
       row_content = JStr [], row_source = JStr ''Example News'',
       row_published_at = JStr ''2025-01-01T00:00:00Z'',
       row_url = JStr ''https://example.org/a'', row_image = JStr []\<rparr>]
   \<and> snd (upsert_calls [sample_refetch, sample_refetch]
        (snd (store_article_in_supabase sample_article empty_store)))
     = snd (store_article_in_supabase sample_article empty_store)"
proof -
  let ?db = "snd (store_article_in_supabase sample_article empty_store)"
  let ?row = "\<lparr>row_id = 0, row_title = JStr ''ai breakthroughs'', row_summary = JStr [],
       row_content = JStr [], row_source = JStr ''Example News'',
       row_published_at = JStr ''2025-01-01T00:00:00Z'',
       row_url = JStr ''https://example.org/a'', row_image = JStr []\<rparr>"
  have rows: "news_articles ?db = [?row]"
    by (simp add: sample_article_stored)
  have mem: "?row \<in> set (news_articles ?db)"
    by (simp add: rows)
  have url: "row_url ?row = JStr ''https://example.org/a''"
    by simp
  have all: "\<forall>b\<in>set [sample_refetch, sample_refetch].
       getitem b ''url'' = Inr (JStr ''https://example.org/a'')"
    by (simp add: sample_urls)
  from upsert_first_write_wins[OF sample_urls(2) mem url, of "[sample_refetch, sample_refetch]"]
    all rows
  show ?thesis by simp
qed

text \<open>
  C3, as the code has it. A candidate without a \<open>url\<close> key raises \<open>KeyError('url')\<close> and
  nothing is stored. An empty url is a url like any other: it is looked up, and a candidate
  with the required fields is inserted under it when no row has it, or gets the id of the row
  that has it.
\<close>

theorem upsert_missing_url:
  "(map_of a ''url'' = None \<longrightarrow>
      store_article_in_supabase a db = (Inl (KeyError ''url''), db))
   \<and> (getitem a ''url'' = Inr (JStr []) \<and> has_required_fields a
        \<and> select_eq_url db (JStr []) = [] \<longrightarrow>
        (\<exists>r. store_article_in_supabase a db =
               (Inr (row_id r),
                db\<lparr>news_articles := news_articles db @ [r],
                   news_articles_seq := Suc (news_articles_seq db)\<rparr>)
             \<and> row_url r = JStr []))
   \<and> (getitem a ''url'' = Inr (JStr []) \<and> select_eq_url db (JStr []) = r0 # rs \<longrightarrow>
        store_article_in_supabase a db = (Inr (row_id r0), db))"
proof (intro conjI impI)
  assume "map_of a ''url'' = None"
  then have "getitem a ''url'' = Inl (KeyError ''url'')"
    by (simp add: getitem_def)
  then show "store_article_in_supabase a db = (Inl (KeyError ''url''), db)"
    by (simp add: store_article_in_supabase_def)
next
  assume h: "getitem a ''url'' = Inr (JStr []) \<and> has_required_fields a
        \<and> select_eq_url db (JStr []) = []"
  then have u: "getitem a ''url'' = Inr (JStr [])"
    and sel: "select_eq_url db (JStr []) = []"
    and req: "has_required_fields a"
    by blast+
  from req obtain t src p where f: "getitem a ''title'' = Inr t" "article_source a = Inr src"
    "getitem a ''publishedAt'' = Inr p"
    by (rule required_fieldsD)
  let ?r = "\<lparr>row_id = news_articles_seq db, row_title = t,
              row_summary = dict_get a ''summary'' (JStr []),
              row_content = dict_get a ''content'' (JStr []),
              row_source = src, row_published_at = p, row_url = JStr [],
              row_image = dict_get a ''urlToImage'' (JStr [])\<rparr>"
  have id: "row_id ?r = news_articles_seq db" and url: "row_url ?r = JStr []"
    by simp_all
  have "store_article_in_supabase a db =
               (Inr (row_id ?r),
                db\<lparr>news_articles := news_articles db @ [?r],
                   news_articles_seq := Suc (news_articles_seq db)\<rparr>)"
    unfolding id by (rule store_insert[OF u sel f])
  with url show "\<exists>r. store_article_in_supabase a db =
               (Inr (row_id r),
                db\<lparr>news_articles := news_articles db @ [r],
                   news_articles_seq := Suc (news_articles_seq db)\<rparr>)
             \<and> row_url r = JStr []"
    by (intro exI[of _ ?r] conjI)
next
  assume "getitem a ''url'' = Inr (JStr []) \<and> select_eq_url db (JStr []) = r0 # rs"
  then show "store_article_in_supabase a db = (Inr (row_id r0), db)"
    by (simp add: store_existing)
qed

lemma sample_empty_url_stored:
  "store_article_in_supabase sample_empty_url empty_store =
     (Inr 0,
      \<lparr>news_articles =
         [\<lparr>row_id = 0, row_title = JStr ''untitled'', row_summary = JStr [],
           row_content = JStr [], row_source = JStr ''wire'',
           row_published_at = JStr ''2025-01-01T00:00:00Z'',
           row_url = JStr [], row_image = JStr []\<rparr>],
       news_articles_seq = Suc 0, user_search_history = []\<rparr>)"
  by (simp add: store_article_in_supabase_def sample_empty_url_def empty_store_def getitem_def
      select_eq_url_def article_source_def dict_get_def insert_news_article_def Let_def)

theorem upsert_missing_url_witness:
  "store_article_in_supabase [(''title'', JStr ''no url'')] empty_store
     = (Inl (KeyError ''url''), empty_store)
   \<and> (\<exists>r. store_article_in_supabase sample_empty_url empty_store =
            (Inr (row_id r),
             empty_store\<lparr>news_articles := news_articles empty_store @ [r],
                         news_articles_seq := Suc (news_articles_seq empty_store)\<rparr>)
          \<and> row_url r = JStr [])
   \<and> store_article_in_supabase sample_empty_url
        (snd (store_article_in_supabase sample_empty_url empty_store))
      = (Inr 0, snd (store_article_in_supabase sample_empty_url empty_store))"
proof -
  have none: "map_of [(''title'', JStr ''no url'')] ''url'' = None"
    by simp
  have u: "getitem sample_empty_url ''url'' = Inr (JStr [])"
    by (simp add: sample_empty_url_def getitem_def)
  have req: "has_required_fields sample_empty_url"
    by (simp add: has_required_fields_def sample_empty_url_def getitem_def article_source_def
        dict_get_def)
  have sel0: "select_eq_url empty_store (JStr []) = []"
    by (simp add: select_eq_url_def empty_store_def)
  let ?db = "snd (store_article_in_supabase sample_empty_url empty_store)"
  let ?row = "\<lparr>row_id = 0, row_title = JStr ''untitled'', row_summary = JStr [],
           row_content = JStr [], row_source = JStr ''wire'',
           row_published_at = JStr ''2025-01-01T00:00:00Z'',
           row_url = JStr [], row_image = JStr []\<rparr>"
  have sel1: "select_eq_url ?db (JStr []) = ?row # []"
    by (simp add: sample_empty_url_stored select_eq_url_def)
  from upsert_missing_url[of "[(''title'', JStr ''no url'')]" empty_store] none
  have a: "store_article_in_supabase [(''title'', JStr ''no url'')] empty_store
     = (Inl (KeyError ''url''), empty_store)"
    by blast
  from upsert_missing_url[of sample_empty_url empty_store] u req sel0
  have b: "\<exists>r. store_article_in_supabase sample_empty_url empty_store =
            (Inr (row_id r),
             empty_store\<lparr>news_articles := news_articles empty_store @ [r],
                         news_articles_seq := Suc (news_articles_seq empty_store)\<rparr>)
          \<and> row_url r = JStr []"
    by blast
  from upsert_missing_url[of sample_empty_url ?db ?row "[]"] u sel1
  have c: "store_article_in_supabase sample_empty_url ?db = (Inr (row_id ?row), ?db)"
    by blast
  from a b c show ?thesis by simp
qed

text \<open>
  The claim C3 as stated fails: a well-formed candidate whose url is the empty string is
  stored, and the call returns its id.
\<close>

theorem upsert_empty_url_counterexample:
  "getitem sample_empty_url ''url'' = Inr (JStr [])
   \<and> news_articles empty_store = []
   \<and> fst (store_article_in_supabase sample_empty_url empty_store) = Inr 0
   \<and> length (news_articles (snd (store_article_in_supabase sample_empty_url empty_store))) = 1"
proof -
  have "getitem sample_empty_url ''url'' = Inr (JStr [])"
    by (simp add: sample_empty_url_def getitem_def)
  moreover have "news_articles empty_store = []"
    by (simp add: empty_store_def)
  moreover have "fst (store_article_in_supabase sample_empty_url empty_store) = Inr 0"
    by (simp only: sample_empty_url_stored fst_conv)
  moreover have
    "length (news_articles (snd (store_article_in_supabase sample_empty_url empty_store))) = 1"
    by (simp only: sample_empty_url_stored snd_conv) simp
  ultimately show ?thesis by (intro conjI)
qed


text \<open>
  C10. On the insert branch (the url is in no row) a candidate with the required fields gets
  a new row whose source is \<open>article["source"]["name"]\<close> when the source is a dict and the
  raw source value otherwise, and whose summary, content and image are the empty string when
  the candidate has no such key. A candidate without \<open>title\<close> or without \<open>publishedAt\<close>
  raises and stores nothing, and so does one without \<open>url\<close>, on any store.
\<close>

theorem insert_branch_fields:
  assumes "getitem a ''url'' = Inr u" and "select_eq_url db u = []"
  shows "(has_required_fields a \<longrightarrow>
           (\<exists>r. store_article_in_supabase a db =
                  (Inr (row_id r),
                   db\<lparr>news_articles := news_articles db @ [r],
                      news_articles_seq := Suc (news_articles_seq db)\<rparr>)
                \<and> row_url r = u
                \<and> getitem a ''title'' = Inr (row_title r)
                \<and> getitem a ''publishedAt'' = Inr (row_published_at r)
                \<and> (\<forall>d. map_of a ''source'' = Some (JDict d) \<longrightarrow>
                         map_of d ''name'' = Some (row_source r))
                \<and> (\<forall>v. map_of a ''source'' = Some v \<and> \<not> isinstance_dict v \<longrightarrow>
                         row_source r = v)
                \<and> (map_of a ''summary'' = None \<longrightarrow> row_summary r = JStr [])
                \<and> (map_of a ''content'' = None \<longrightarrow> row_content r = JStr [])
                \<and> (map_of a ''urlToImage'' = None \<longrightarrow> row_image r = JStr [])
                \<and> (\<forall>v. map_of a ''summary'' = Some v \<longrightarrow> row_summary r = v)
                \<and> (\<forall>v. map_of a ''content'' = Some v \<longrightarrow> row_content r = v)
                \<and> (\<forall>v. map_of a ''urlToImage'' = Some v \<longrightarrow> row_image r = v)))
       \<and> (map_of a ''title'' = None \<longrightarrow>
            store_article_in_supabase a db = (Inl (KeyError ''title''), db))
       \<and> (map_of a ''publishedAt'' = None \<longrightarrow>
            (\<exists>e. store_article_in_supabase a db = (Inl e, db)))
       \<and> (map_of b ''url'' = None \<longrightarrow>
            store_article_in_supabase b db' = (Inl (KeyError ''url''), db'))"
proof (intro conjI impI)
  assume req: "has_required_fields a"
  then obtain t src p where f: "getitem a ''title'' = Inr t" "article_source a = Inr src"
    "getitem a ''publishedAt'' = Inr p"
    by (rule required_fieldsD)
  let ?r = "\<lparr>row_id = news_articles_seq db, row_title = t,
              row_summary = dict_get a ''summary'' (JStr []),
              row_content = dict_get a ''content'' (JStr []),
              row_source = src, row_published_at = p, row_url = u,
              row_image = dict_get a ''urlToImage'' (JStr [])\<rparr>"
  have id: "row_id ?r = news_articles_seq db"
    by simp
  have stored: "store_article_in_supabase a db =
                  (Inr (row_id ?r),
                   db\<lparr>news_articles := news_articles db @ [?r],
                      news_articles_seq := Suc (news_articles_seq db)\<rparr>)"
    unfolding id by (rule store_insert[OF assms f])
  have url: "row_url ?r = u" by simp
  have title: "getitem a ''title'' = Inr (row_title ?r)" using f(1) by simp
  have pub: "getitem a ''publishedAt'' = Inr (row_published_at ?r)" using f(3) by simp
  have src_dict: "\<forall>d. map_of a ''source'' = Some (JDict d) \<longrightarrow>
                         map_of d ''name'' = Some (row_source ?r)"
    using f(2)
    by (auto simp: article_source_def dict_get_def getitem_def split: option.splits)
  have src_raw: "\<forall>v. map_of a ''source'' = Some v \<and> \<not> isinstance_dict v \<longrightarrow>
                         row_source ?r = v"
  proof (intro allI impI)
    fix v assume v: "map_of a ''source'' = Some v \<and> \<not> isinstance_dict v"
    then have "article_source a = Inr v"
      by (cases v) (simp_all add: article_source_def dict_get_def getitem_def)
    with f(2) show "row_source ?r = v" by simp
  qed
  have dflt: "map_of a ''summary'' = None \<longrightarrow> row_summary ?r = JStr []"
    "map_of a ''content'' = None \<longrightarrow> row_content ?r = JStr []"
    "map_of a ''urlToImage'' = None \<longrightarrow> row_image ?r = JStr []"
    by (simp_all add: dict_get_def)
  have given: "\<forall>v. map_of a ''summary'' = Some v \<longrightarrow> row_summary ?r = v"
    "\<forall>v. map_of a ''content'' = Some v \<longrightarrow> row_content ?r = v"
    "\<forall>v. map_of a ''urlToImage'' = Some v \<longrightarrow> row_image ?r = v"
    by (simp_all add: dict_get_def)
  from stored url title pub src_dict src_raw dflt given
  show "\<exists>r. store_article_in_supabase a db =
                  (Inr (row_id r),
                   db\<lparr>news_articles := news_articles db @ [r],
                      news_articles_seq := Suc (news_articles_seq db)\<rparr>)
                \<and> row_url r = u
                \<and> getitem a ''title'' = Inr (row_title r)
                \<and> getitem a ''publishedAt'' = Inr (row_published_at r)
                \<and> (\<forall>d. map_of a ''source'' = Some (JDict d) \<longrightarrow>
                         map_of d ''name'' = Some (row_source r))
                \<and> (\<forall>v. map_of a ''source'' = Some v \<and> \<not> isinstance_dict v \<longrightarrow>
                         row_source r = v)
                \<and> (map_of a ''summary'' = None \<longrightarrow> row_summary r = JStr [])
                \<and> (map_of a ''content'' = None \<longrightarrow> row_content r = JStr [])
                \<and> (map_of a ''urlToImage'' = None \<longrightarrow> row_image r = JStr [])
                \<and> (\<forall>v. map_of a ''summary'' = Some v \<longrightarrow> row_summary r = v)
                \<and> (\<forall>v. map_of a ''content'' = Some v \<longrightarrow> row_content r = v)
                \<and> (\<forall>v. map_of a ''urlToImage'' = Some v \<longrightarrow> row_image r = v)"
    by (intro exI[of _ ?r] conjI)
next
  assume "map_of a ''title'' = None"
  then have "getitem a ''title'' = Inl (KeyError ''title'')"
    by (simp add: getitem_def)
  with assms show "store_article_in_supabase a db = (Inl (KeyError ''title''), db)"
    by (simp add: store_article_in_supabase_def)
next
  assume "map_of a ''publishedAt'' = None"
  then have p: "getitem a ''publishedAt'' = Inl (KeyError ''publishedAt'')"
    by (simp add: getitem_def)
  show "\<exists>e. store_article_in_supabase a db = (Inl e, db)"
  proof (cases "getitem a ''title''")
    case (Inl e)
    with assms show ?thesis by (simp add: store_article_in_supabase_def)
  next
    case t: (Inr t)
    show ?thesis
    proof (cases "article_source a")
      case (Inl e)
      with assms t show ?thesis by (simp add: store_article_in_supabase_def)
    next
      case (Inr src)
      with assms t p show ?thesis by (simp add: store_article_in_supabase_def)
    qed
  qed
next
  assume "map_of b ''url'' = None"
  then have "getitem b ''url'' = Inl (KeyError ''url'')"
    by (simp add: getitem_def)
  then show "store_article_in_supabase b db' = (Inl (KeyError ''url''), db')"
    by (simp add: store_article_in_supabase_def)
qed

theorem insert_branch_fields_witness:
  "(\<exists>r. store_article_in_supabase sample_article empty_store =
          (Inr (row_id r),
           empty_store\<lparr>news_articles := news_articles empty_store @ [r],
                       news_articles_seq := Suc (news_articles_seq empty_store)\<rparr>)
        \<and> row_url r = JStr ''https://example.org/a''
        \<and> row_title r = JStr ''ai breakthroughs''
        \<and> row_source r = JStr ''Example News''
        \<and> row_summary r = JStr [] \<and> row_content r = JStr [] \<and> row_image r = JStr [])
   \<and> (\<exists>r. store_article_in_supabase sample_refetch empty_store =
          (Inr (row_id r),
           empty_store\<lparr>news_articles := news_articles empty_store @ [r],
                       news_articles_seq := Suc (news_articles_seq empty_store)\<rparr>)
        \<and> row_source r = JStr ''Example News''
        \<and> row_content r = JStr ''new text'')
   \<and> store_article_in_supabase [(''url'', JStr ''u'')] empty_store
        = (Inl (KeyError ''title''), empty_store)
   \<and> (\<exists>e. store_article_in_supabase
             [(''url'', JStr ''u''), (''title'', JStr ''t''), (''source'', JStr ''s'')] empty_store
           = (Inl e, empty_store))
   \<and> store_article_in_supabase [(''title'', JStr ''t'')] empty_store
        = (Inl (KeyError ''url''), empty_store)"
proof -
  have sel: "\<And>u. select_eq_url empty_store u = []"
    by (simp add: select_eq_url_def empty_store_def)
  have req1: "has_required_fields sample_article"
    by (simp add: has_required_fields_def sample_article_def getitem_def article_source_def
        dict_get_def)
  have req2: "has_required_fields sample_refetch"
    by (simp add: has_required_fields_def sample_refetch_def getitem_def article_source_def
        dict_get_def)
  have m1: "map_of sample_article ''source''
              = Some (JDict [(''id'', JNull), (''name'', JStr ''Example News'')])"
    "map_of sample_article ''summary'' = None" "map_of sample_article ''content'' = None"
    "map_of sample_article ''urlToImage'' = None"
    "getitem sample_article ''title'' = Inr (JStr ''ai breakthroughs'')"
    by (simp_all add: sample_article_def getitem_def)
  have m2: "map_of sample_refetch ''source'' = Some (JStr ''Example News'')"
    "map_of sample_refetch ''content'' = Some (JStr ''new text'')"
    by (simp_all add: sample_refetch_def)
  have m3: "map_of [(''title'', JStr ''t'')] ''url'' = None"
    by simp
  note T1 = insert_branch_fields[OF sample_urls(1) sel, of "[(''title'', JStr ''t'')]" empty_store]
  have A: "\<exists>r. store_article_in_supabase sample_article empty_store =
          (Inr (row_id r),
           empty_store\<lparr>news_articles := news_articles empty_store @ [r],
                       news_articles_seq := Suc (news_articles_seq empty_store)\<rparr>)
        \<and> row_url r = JStr ''https://example.org/a''
        \<and> row_title r = JStr ''ai breakthroughs''
        \<and> row_source r = JStr ''Example News''
        \<and> row_summary r = JStr [] \<and> row_content r = JStr [] \<and> row_image r = JStr []"
    using T1[THEN conjunct1, THEN mp, OF req1]
  proof (elim exE conjE)
    fix r
    assume st: "store_article_in_supabase sample_article empty_store =
          (Inr (row_id r),
           empty_store\<lparr>news_articles := news_articles empty_store @ [r],
                       news_articles_seq := Suc (news_articles_seq empty_store)\<rparr>)"
      and url: "row_url r = JStr ''https://example.org/a''"
      and title: "getitem sample_article ''title'' = Inr (row_title r)"
      and src: "\<forall>d. map_of sample_article ''source'' = Some (JDict d) \<longrightarrow>
             map_of d ''name'' = Some (row_source r)"
      and su: "map_of sample_article ''summary'' = None \<longrightarrow> row_summary r = JStr []"
      and co: "map_of sample_article ''content'' = None \<longrightarrow> row_content r = JStr []"
      and im: "map_of sample_article ''urlToImage'' = None \<longrightarrow> row_image r = JStr []"
    from src[rule_format, OF m1(1)] have s1: "row_source r = JStr ''Example News''"
      by simp
    from title m1(5) have t1: "row_title r = JStr ''ai breakthroughs''"
      by simp
    note d1 = su[rule_format, OF m1(2)] co[rule_format, OF m1(3)] im[rule_format, OF m1(4)]
    from st url t1 s1 d1 show ?thesis
      by (intro exI[of _ r] conjI)
  qed
  have nourl: "store_article_in_supabase [(''title'', JStr ''t'')] empty_store
        = (Inl (KeyError ''url''), empty_store)"
    by (rule T1[THEN conjunct2, THEN conjunct2, THEN conjunct2, THEN mp, OF m3])
  note T2 = insert_branch_fields[OF sample_urls(2) sel, of "[]" empty_store]
  have B: "\<exists>r. store_article_in_supabase sample_refetch empty_store =
          (Inr (row_id r),
           empty_store\<lparr>news_articles := news_articles empty_store @ [r],
                       news_articles_seq := Suc (news_articles_seq empty_store)\<rparr>)
        \<and> row_source r = JStr ''Example News''
        \<and> row_content r = JStr ''new text''"
    using T2[THEN conjunct1, THEN mp, OF req2]
  proof (elim exE conjE)
    fix r
    assume st: "store_article_in_supabase sample_refetch empty_store =
          (Inr (row_id r),
           empty_store\<lparr>news_articles := news_articles empty_store @ [r],
                       news_articles_seq := Suc (news_articles_seq empty_store)\<rparr>)"
      and src: "\<forall>v. map_of sample_refetch ''source'' = Some v \<and> \<not> isinstance_dict v \<longrightarrow>
             row_source r = v"
      and co: "\<forall>v. map_of sample_refetch ''content'' = Some v \<longrightarrow> row_content r = v"
    have nd: "\<not> isinstance_dict (JStr ''Example News'')" by simp
    note s2 = src[rule_format, OF conjI[OF m2(1) nd]]
    note c2 = co[rule_format, OF m2(2)]
    from st s2 c2 show ?thesis
      by (intro exI[of _ r] conjI)
  qed
  have u3: "getitem [(''url'', JStr ''u'')] ''url'' = Inr (JStr ''u'')"
    "map_of [(''url'', JStr ''u'')] ''title'' = None"
    by (simp_all add: getitem_def)
  note T3 = insert_branch_fields[OF u3(1) sel, of "[]" empty_store]
  have C: "store_article_in_supabase [(''url'', JStr ''u'')] empty_store
        = (Inl (KeyError ''title''), empty_store)"
    by (rule T3[THEN conjunct2, THEN conjunct1, THEN mp, OF u3(2)])
  have u4: "getitem [(''url'', JStr ''u''), (''title'', JStr ''t''), (''source'', JStr ''s'')] ''url''
              = Inr (JStr ''u'')"
    "map_of [(''url'', JStr ''u''), (''title'', JStr ''t''), (''source'', JStr ''s'')]
       ''publishedAt'' = None"
    by (simp_all add: getitem_def)
  note T4 = insert_branch_fields[OF u4(1) sel, of "[]" empty_store]
  have D: "\<exists>e. store_article_in_supabase
             [(''url'', JStr ''u''), (''title'', JStr ''t''), (''source'', JStr ''s'')] empty_store
           = (Inl e, empty_store)"
    by (rule T4[THEN conjunct2, THEN conjunct2, THEN conjunct1, THEN mp, OF u4(2)])
  from A B C D nourl show ?thesis by (intro conjI)
qed


section \<open>The fetch adapter and its caller\<close>

lemma fetch_news_failing:
  "fetch_news failing_provider kw = JNull"
  "fetch_news error_status_provider kw = JNull"
  by (simp_all add: fetch_news_def failing_provider_def error_status_provider_def dict_get_def)

lemma NewsFetch_get_None:
  assumes "fetch_news api (case map_of args ''keyword'' of None \<Rightarrow> [] | Some k \<Rightarrow> k) = JNull"
  shows "NewsFetch_get api args db =
     (error_response 500 ([CHR 0x27] @ ''NoneType'' @ [CHR 0x27] @ '' object is not iterable''), db)"
  using assms by (simp add: NewsFetch_get_def Let_def)

text \<open>
  C4, on the code. A provider failure (a request exception, or a reply whose status is not
  \<open>ok\<close>) is caught inside \<open>fetch_news\<close>, which then returns \<open>None\<close> and not an empty list.
  The caller \<open>NewsFetch.get\<close> iterates over that value: the TypeError becomes a 500
  response, not a success with no articles. The store is left as it was.
\<close>

theorem fetch_failure_is_a_server_error:
  "fetch_news failing_provider kw = JNull
   \<and> fetch_news error_status_provider kw = JNull
   \<and> NewsFetch_get failing_provider args db =
       (error_response 500 ([CHR 0x27] @ ''NoneType'' @ [CHR 0x27] @ '' object is not iterable''),
        db)
   \<and> NewsFetch_get error_status_provider args db =
       (error_response 500 ([CHR 0x27] @ ''NoneType'' @ [CHR 0x27] @ '' object is not iterable''),
        db)
   \<and> status_code (fst (NewsFetch_get failing_provider args db)) = 500
   \<and> status_code (fst (NewsFetch_get error_status_provider args db)) = 500"
proof -
  have a: "NewsFetch_get failing_provider args db =
       (error_response 500 ([CHR 0x27] @ ''NoneType'' @ [CHR 0x27] @ '' object is not iterable''),
        db)"
    by (rule NewsFetch_get_None) (rule fetch_news_failing)
  have b: "NewsFetch_get error_status_provider args db =
       (error_response 500 ([CHR 0x27] @ ''NoneType'' @ [CHR 0x27] @ '' object is not iterable''),
        db)"
    by (rule NewsFetch_get_None) (rule fetch_news_failing)
  have c: "status_code (fst (NewsFetch_get failing_provider args db)) = 500"
    unfolding a by (simp add: error_response_def)
  have d: "status_code (fst (NewsFetch_get error_status_provider args db)) = 500"
    unfolding b by (simp add: error_response_def)
  from fetch_news_failing[of kw] a b c d show ?thesis by (intro conjI)
qed


section \<open>Properties of the relatedness matcher\<close>

lemma starts_with_iff: "starts_with s p \<longleftrightarrow> (\<exists>post. s = p @ post)"
  by (induction s p rule: starts_with.induct) auto

lemma occurs_in_iff: "occurs_in needle hay \<longleftrightarrow> (\<exists>pre post. hay = pre @ needle @ post)"
proof (induction hay)
  case Nil
  then show ?case by simp
next
  case (Cons c cs)
  show ?case
  proof
    assume "occurs_in needle (c # cs)"
    then consider "starts_with (c # cs) needle" | "occurs_in needle cs" by auto
    then show "\<exists>pre post. c # cs = pre @ needle @ post"
    proof cases
      case 1
      then obtain post where "c # cs = needle @ post" by (auto simp: starts_with_iff)
      then have "c # cs = [] @ needle @ post" by simp
      then show ?thesis by blast
    next
      case 2
      with Cons.IH obtain pre post where "cs = pre @ needle @ post" by blast
      then have "c # cs = (c # pre) @ needle @ post" by simp
      then show ?thesis by blast
    qed
  next
    assume "\<exists>pre post. c # cs = pre @ needle @ post"
    then obtain pre post where eq: "c # cs = pre @ needle @ post" by blast
    show "occurs_in needle (c # cs)"
    proof (cases pre)
      case Nil
      with eq have "starts_with (c # cs) needle" by (auto simp: starts_with_iff)
      then show ?thesis by simp
    next
      case (Cons p ps)
      with eq have "cs = ps @ needle @ post" by simp
      with Cons.IH have "occurs_in needle cs" by blast
      then show ?thesis by simp
    qed
  qed
qed

lemma strip_empty_iff: "strip s = [] \<longleftrightarrow> (\<forall>c\<in>set s. is_space c)"
proof
  assume "strip s = []"
  then have "\<forall>c\<in>set (dropWhile is_space s). is_space c"
    by (simp add: strip_def dropWhile_eq_Nil_conv)
  then have "dropWhile is_space s = []"
    by (cases "dropWhile is_space s") (auto simp: dropWhile_eq_Cons_conv)
  then show "\<forall>c\<in>set s. is_space c"
    by (simp add: dropWhile_eq_Nil_conv)
next
  assume "\<forall>c\<in>set s. is_space c"
  then have d: "dropWhile is_space s = []"
    by (simp add: dropWhile_eq_Nil_conv)
  show "strip s = []" unfolding strip_def d by simp
qed

lemma lower_char_space: "is_space (lower_char c) = is_space c"
proof (cases "map_of (zip ''ABCDEFGHIJKLMNOPQRSTUVWXYZ'' ''abcdefghijklmnopqrstuvwxyz'') c")
  case None
  then show ?thesis by (simp add: lower_char_def)
next
  case (Some l)
  then have "(c, l) \<in> set (zip ''ABCDEFGHIJKLMNOPQRSTUVWXYZ'' ''abcdefghijklmnopqrstuvwxyz'')"
    by (rule map_of_SomeD)
  then have "\<not> is_space c \<and> \<not> is_space l"
    by (auto simp: is_space_def)
  with Some show ?thesis by (simp add: lower_char_def)
qed

lemma lower_strip: "lower (strip s) = strip (lower s)"
proof -
  have comp: "is_space \<circ> lower_char = is_space"
    by (rule ext) (simp add: lower_char_space)
  show ?thesis
    by (simp add: lower_def strip_def rev_map dropWhile_map comp)
qed

lemma isRelated_occurs:
  "isRelated story article \<longleftrightarrow>
     lower (strip (st_keyword story)) \<noteq> [] \<and>
     (occurs_in (lower (strip (st_keyword story))) (lower (text_field article ''title''))
      \<or> occurs_in (lower (strip (st_keyword story))) (lower (text_field article ''content''))
      \<or> occurs_in (lower (strip (st_keyword story))) (lower (text_field article ''summary'')))"
  by (simp add: isRelated_def Let_def)

lemma lower_Nil_iff: "lower s = [] \<longleftrightarrow> s = []"
  by (simp add: lower_def)

lemma strip_core:
  assumes "\<forall>c\<in>set pre. is_space c" "\<forall>c\<in>set post. is_space c"
    and "core = [] \<or> (\<not> is_space (hd core) \<and> \<not> is_space (last core))"
  shows "strip (pre @ core @ post) = core"
proof (cases "core = []")
  case True
  with assms have "\<forall>c\<in>set (pre @ core @ post). is_space c" by auto
  then have "strip (pre @ core @ post) = []" by (simp only: strip_empty_iff)
  with True show ?thesis by simp
next
  case False
  with assms(3) have h: "\<not> is_space (hd core)" and l: "\<not> is_space (last core)" by auto
  have d1: "dropWhile is_space (pre @ core @ post) = core @ post"
  proof -
    have "dropWhile is_space (pre @ core @ post) = dropWhile is_space (core @ post)"
      by (rule dropWhile_append2) (use assms(1) in auto)
    also have "\<dots> = core @ post"
      using False h by (cases core) simp_all
    finally show ?thesis .
  qed
  have d2: "dropWhile is_space (rev post @ rev core) = rev core"
  proof -
    have "dropWhile is_space (rev post @ rev core) = dropWhile is_space (rev core)"
      by (rule dropWhile_append2) (use assms(2) in auto)
    also have "\<dots> = rev core"
      using False l by (cases "rev core") (simp_all add: hd_rev)
    finally show ?thesis .
  qed
  show ?thesis
    unfolding strip_def d1 by (simp add: d2)
qed

lemma strip_decomposition:
  "\<exists>pre post. s = pre @ strip s @ post
      \<and> (\<forall>c\<in>set pre. is_space c) \<and> (\<forall>c\<in>set post. is_space c)
      \<and> (strip s = [] \<or> (\<not> is_space (hd (strip s)) \<and> \<not> is_space (last (strip s))))"
proof -
  let ?d = "dropWhile is_space s"
  let ?t = "takeWhile is_space (rev ?d)"
  have s: "s = takeWhile is_space s @ ?d" by simp
  have "strip s @ rev ?t = rev (?t @ dropWhile is_space (rev ?d))"
    unfolding strip_def by (simp only: rev_append)
  also have "\<dots> = ?d"
    by (simp only: takeWhile_dropWhile_id rev_rev_ident)
  finally have d: "?d = strip s @ rev ?t" by (rule sym)
  have eq: "s = takeWhile is_space s @ strip s @ rev ?t"
    using s d by simp
  have pre: "\<forall>c\<in>set (takeWhile is_space s). is_space c"
    by (auto dest: set_takeWhileD)
  have post: "\<forall>c\<in>set (rev ?t). is_space c"
    by (auto dest: set_takeWhileD)
  have core: "strip s = [] \<or> (\<not> is_space (hd (strip s)) \<and> \<not> is_space (last (strip s)))"
  proof (cases "strip s = []")
    case True
    then show ?thesis by simp
  next
    case False
    then have ne: "dropWhile is_space (rev ?d) \<noteq> []" by (simp add: strip_def)
    then have "\<not> is_space (hd (dropWhile is_space (rev ?d)))" by (rule hd_dropWhile)
    then have l: "\<not> is_space (last (strip s))"
      using ne by (simp add: strip_def last_rev)
    from False d have dne: "?d \<noteq> []" by (metis Nil_is_append_conv)
    then have "\<not> is_space (hd ?d)" by (rule hd_dropWhile)
    moreover have "hd ?d = hd (strip s)"
      using False by (subst d) simp
    ultimately have "\<not> is_space (hd (strip s))" by simp
    with l show ?thesis by simp
  qed
  from eq pre post core show ?thesis by blast
qed

lemma upper_codes: "map of_char ''ABCDEFGHIJKLMNOPQRSTUVWXYZ'' = [65..<91::nat]"
  by (simp add: upt_rec)

lemma of_char_upper:
  "c \<in> set ''ABCDEFGHIJKLMNOPQRSTUVWXYZ'' \<longleftrightarrow> (65::nat) \<le> of_char c \<and> of_char c \<le> (90::nat)"
proof -
  have "(65::nat) \<le> of_char c \<and> of_char c \<le> (90::nat) \<longleftrightarrow> (of_char c :: nat) \<in> set [65..<91]"
    by (simp only: set_upt atLeastLessThan_iff) arith
  also have "\<dots> \<longleftrightarrow> (of_char c :: nat) \<in> of_char ` set ''ABCDEFGHIJKLMNOPQRSTUVWXYZ''"
    by (simp only: upper_codes[symmetric] set_map)
  also have "\<dots> \<longleftrightarrow> c \<in> set ''ABCDEFGHIJKLMNOPQRSTUVWXYZ''"
    by (rule inj_image_mem_iff) (simp add: inj_on_def)
  finally show ?thesis by (rule sym)
qed

lemma lower_char_code:
  "(of_char (lower_char c) :: nat) =
     (if (65::nat) \<le> of_char c \<and> of_char c \<le> (90::nat) then of_char c + 32 else of_char c)"
proof (cases "c \<in> set ''ABCDEFGHIJKLMNOPQRSTUVWXYZ''")
  case True
  then have "(of_char (lower_char c) :: nat) = of_char c + 32"
    by (auto simp: lower_char_def)
  moreover from True have "(65::nat) \<le> of_char c \<and> of_char c \<le> (90::nat)"
    by (rule iffD1[OF of_char_upper])
  ultimately show ?thesis by simp
next
  case False
  then have "map_of (zip ''ABCDEFGHIJKLMNOPQRSTUVWXYZ'' ''abcdefghijklmnopqrstuvwxyz'') c = None"
    by simp
  then have "lower_char c = c" by (simp add: lower_char_def)
  moreover have "\<not> ((65::nat) \<le> of_char c \<and> of_char c \<le> (90::nat))"
  proof
    assume "(65::nat) \<le> of_char c \<and> of_char c \<le> (90::nat)"
    then have "c \<in> set ''ABCDEFGHIJKLMNOPQRSTUVWXYZ''" by (rule iffD2[OF of_char_upper])
    with False show False by (rule notE)
  qed
  ultimately show ?thesis by simp
qed

lemma is_space_code:
  "is_space c \<longleftrightarrow> (of_char c :: nat) \<in> {9, 10, 11, 12, 13, 28, 29, 30, 31, 32}"
proof -
  let ?ws = "[CHR '' '', CHR 0x09, CHR 0x0A, CHR 0x0B, CHR 0x0C, CHR 0x0D, CHR 0x1C, CHR 0x1D,
              CHR 0x1E, CHR 0x1F]"
  have "is_space c \<longleftrightarrow> c \<in> set ?ws" by (simp add: is_space_def)
  also have "\<dots> \<longleftrightarrow> (of_char c :: nat) \<in> of_char ` set ?ws"
    by (rule inj_image_mem_iff[symmetric]) (simp add: inj_on_def)
  also have "(of_char ` set ?ws :: nat set) = {9, 10, 11, 12, 13, 28, 29, 30, 31, 32}"
    by auto
  finally show ?thesis .
qed

lemma field_occurs:
  assumes "core \<noteq> []"
  shows "occurs_in (lower core) (lower (text_field article k)) \<longleftrightarrow>
     (\<exists>s a b. map_of article k = Some (JStr s) \<and> lower s = a @ lower core @ b)"
proof (cases "map_of article k")
  case None
  then have "text_field article k = []" by (simp add: text_field_def)
  with assms None show ?thesis by (simp add: lower_def)
next
  case (Some v)
  show ?thesis
  proof (cases v)
    case (JStr s)
    with Some have "text_field article k = s" by (simp add: text_field_def)
    with Some JStr show ?thesis by (simp add: occurs_in_iff)
  qed (use Some assms in \<open>simp_all add: text_field_def lower_def\<close>)
qed

text \<open>
  C2. Write the story's keyword as leading whitespace, a core that neither starts nor ends
  with whitespace, and trailing whitespace (every keyword has such a form). The story and an
  article are related exactly when the core is not empty and, compared without regard to
  case, occurs as a substring of the article's title, of its content or of its summary, where
  the field is a string. So a keyword that is empty or all whitespace matches no article,
  and a missing or null content field counts as the empty string: the answer is then decided
  by title and summary. Comparing without regard to case is lower-casing the letters A to Z;
  whitespace is the characters 9 to 13 and 28 to 32.
\<close>

theorem isRelated_substring_rule:
  assumes "st_keyword story = pre @ core @ post"
    and "\<forall>c\<in>set pre. is_space c" and "\<forall>c\<in>set post. is_space c"
    and "core = [] \<or> (\<not> is_space (hd core) \<and> \<not> is_space (last core))"
  shows "(isRelated story article \<longleftrightarrow>
            core \<noteq> [] \<and>
            ((\<exists>s a b. map_of article ''title'' = Some (JStr s) \<and> lower s = a @ lower core @ b)
             \<or> (\<exists>s a b. map_of article ''content'' = Some (JStr s) \<and> lower s = a @ lower core @ b)
             \<or> (\<exists>s a b. map_of article ''summary'' = Some (JStr s) \<and> lower s = a @ lower core @ b)))
       \<and> (core = [] \<longrightarrow> \<not> isRelated story article)
       \<and> (map_of article ''content'' = None \<or> map_of article ''content'' = Some JNull \<longrightarrow>
            (isRelated story article \<longleftrightarrow>
               core \<noteq> [] \<and>
               ((\<exists>s a b. map_of article ''title'' = Some (JStr s) \<and> lower s = a @ lower core @ b)
                \<or> (\<exists>s a b. map_of article ''summary'' = Some (JStr s)
                             \<and> lower s = a @ lower core @ b))))
       \<and> length (lower t) = length t
       \<and> (\<forall>i<length t. (of_char (lower t ! i) :: nat) =
             (if (65::nat) \<le> of_char (t ! i) \<and> of_char (t ! i) \<le> (90::nat)
              then of_char (t ! i) + 32 else of_char (t ! i)))
       \<and> (is_space c \<longleftrightarrow> (of_char c :: nat) \<in> {9, 10, 11, 12, 13, 28, 29, 30, 31, 32})
       \<and> (\<exists>p k q. kw = p @ k @ q \<and> (\<forall>c\<in>set p. is_space c) \<and> (\<forall>c\<in>set q. is_space c)
              \<and> (k = [] \<or> (\<not> is_space (hd k) \<and> \<not> is_space (last k))))"
proof -
  have core: "strip (st_keyword story) = core"
    unfolding assms(1) using assms(2-4) by (rule strip_core)
  have rule: "isRelated story article \<longleftrightarrow>
            core \<noteq> [] \<and>
            ((\<exists>s a b. map_of article ''title'' = Some (JStr s) \<and> lower s = a @ lower core @ b)
             \<or> (\<exists>s a b. map_of article ''content'' = Some (JStr s) \<and> lower s = a @ lower core @ b)
             \<or> (\<exists>s a b. map_of article ''summary'' = Some (JStr s) \<and> lower s = a @ lower core @ b))"
  proof (cases "core = []")
    case True
    then show ?thesis by (simp add: isRelated_occurs core lower_def)
  next
    case False
    then show ?thesis
      unfolding isRelated_occurs core lower_Nil_iff field_occurs[OF False] by simp
  qed
  have empty: "core = [] \<longrightarrow> \<not> isRelated story article"
    using rule by simp
  have null: "map_of article ''content'' = None \<or> map_of article ''content'' = Some JNull \<longrightarrow>
            (isRelated story article \<longleftrightarrow>
               core \<noteq> [] \<and>
               ((\<exists>s a b. map_of article ''title'' = Some (JStr s) \<and> lower s = a @ lower core @ b)
                \<or> (\<exists>s a b. map_of article ''summary'' = Some (JStr s)
                             \<and> lower s = a @ lower core @ b)))"
  proof
    assume "map_of article ''content'' = None \<or> map_of article ''content'' = Some JNull"
    then have "\<not> (\<exists>s a b. map_of article ''content'' = Some (JStr s)
                    \<and> lower s = a @ lower core @ b)"
      by auto
    with rule show "isRelated story article \<longleftrightarrow>
               core \<noteq> [] \<and>
               ((\<exists>s a b. map_of article ''title'' = Some (JStr s) \<and> lower s = a @ lower core @ b)
                \<or> (\<exists>s a b. map_of article ''summary'' = Some (JStr s)
                             \<and> lower s = a @ lower core @ b))"
      by blast
  qed
  have len: "length (lower t) = length t"
    by (simp add: lower_def)
  have low: "\<forall>i<length t. (of_char (lower t ! i) :: nat) =
             (if (65::nat) \<le> of_char (t ! i) \<and> of_char (t ! i) \<le> (90::nat)
              then of_char (t ! i) + 32 else of_char (t ! i))"
    by (simp add: lower_def lower_char_code)
  have sp: "is_space c \<longleftrightarrow> (of_char c :: nat) \<in> {9, 10, 11, 12, 13, 28, 29, 30, 31, 32}"
    by (rule is_space_code)
  have dec: "\<exists>p k q. kw = p @ k @ q \<and> (\<forall>c\<in>set p. is_space c) \<and> (\<forall>c\<in>set q. is_space c)
              \<and> (k = [] \<or> (\<not> is_space (hd k) \<and> \<not> is_space (last k)))"
    using strip_decomposition[of kw] by blast
  from rule empty null len low sp dec show ?thesis by (intro conjI)
qed

theorem isRelated_substring_rule_witness:
  "isRelated sample_story [(''title'', JStr ''ai breakthroughs'')]
   \<and> \<not> isRelated sample_story [(''title'', JStr ''unrelated topic''), (''content'', JStr [])]
   \<and> isRelated sample_story
        [(''title'', JStr ''Markets today''), (''content'', JStr ''New AI chips ship'')]
   \<and> isRelated sample_story
        [(''title'', JStr ''Markets today''), (''summary'', JStr ''Chips for ai'')]
   \<and> \<not> isRelated sample_story
        [(''title'', JStr ''Markets today''), (''description'', JStr ''Chips for ai'')]
   \<and> isRelated (sample_story\<lparr>st_keyword := [CHR 0x09, CHR '' ''] @ ''AI'' @ [CHR '' '', CHR 0x0A]\<rparr>)
        [(''title'', JStr ''ai breakthroughs'')]
   \<and> \<not> isRelated (sample_story\<lparr>st_keyword := ''A I''\<rparr>) [(''title'', JStr ''ai breakthroughs'')]
   \<and> \<not> isRelated (sample_story\<lparr>st_keyword := [CHR '' '', CHR 0x09]\<rparr>) sample_article
   \<and> \<not> isRelated (sample_story\<lparr>st_keyword := []\<rparr>) sample_article
   \<and> isRelated sample_story [(''title'', JStr ''ai breakthroughs''), (''content'', JNull)]
   \<and> isRelated (sample_story\<lparr>st_keyword := ''electric vehicles''\<rparr>)
        [(''title'', JStr ''Electric Vehicles surge'')]
   \<and> \<not> isRelated (sample_story\<lparr>st_keyword := ''electric vehicles''\<rparr>)
        [(''title'', JStr ''cooking recipes'')]"
proof -
  note ev = sample_story_def is_space_def lower_def lower_char_def
  have related: "isRelated story article"
    if "st_keyword story = pre @ core @ post"
      and "\<forall>c\<in>set pre. is_space c" and "\<forall>c\<in>set post. is_space c"
      and "core = [] \<or> (\<not> is_space (hd core) \<and> \<not> is_space (last core))"
      and "core \<noteq> []"
      and "(map_of article ''title'' = Some (JStr s) \<and> lower s = a @ lower core @ b)
           \<or> (map_of article ''content'' = Some (JStr s) \<and> lower s = a @ lower core @ b)
           \<or> (map_of article ''summary'' = Some (JStr s) \<and> lower s = a @ lower core @ b)"
    for story article pre core post s a b
    using isRelated_substring_rule[OF that(1-4), of article, THEN conjunct1] that(5,6)
    by blast
  have unrelated: "\<not> isRelated story article"
    if "st_keyword story = pre @ core @ post"
      and "\<forall>c\<in>set pre. is_space c" and "\<forall>c\<in>set post. is_space c"
      and "core = [] \<or> (\<not> is_space (hd core) \<and> \<not> is_space (last core))"
      and "\<And>s. map_of article ''title'' = Some (JStr s) \<Longrightarrow> \<not> occurs_in (lower core) (lower s)"
      and "\<And>s. map_of article ''content'' = Some (JStr s) \<Longrightarrow> \<not> occurs_in (lower core) (lower s)"
      and "\<And>s. map_of article ''summary'' = Some (JStr s) \<Longrightarrow> \<not> occurs_in (lower core) (lower s)"
    for story article pre core post
    using isRelated_substring_rule[OF that(1-4), of article, THEN conjunct1] that(5-7)
    unfolding occurs_in_iff by blast
  have blank: "\<not> isRelated story article"
    if "st_keyword story = pre @ [] @ post"
      and "\<forall>c\<in>set pre. is_space c" and "\<forall>c\<in>set post. is_space c"
    for story article pre post
    using isRelated_substring_rule[OF that(1-3), of article, THEN conjunct2, THEN conjunct1]
    by simp
  have nullc: "isRelated story article"
    if "st_keyword story = pre @ core @ post"
      and "\<forall>c\<in>set pre. is_space c" and "\<forall>c\<in>set post. is_space c"
      and "core = [] \<or> (\<not> is_space (hd core) \<and> \<not> is_space (last core))"
      and "map_of article ''content'' = None \<or> map_of article ''content'' = Some JNull"
      and "core \<noteq> []"
      and "map_of article ''title'' = Some (JStr s) \<and> lower s = a @ lower core @ b"
    for story article pre core post s a b
    using isRelated_substring_rule[OF that(1-4), of article,
        THEN conjunct2, THEN conjunct2, THEN conjunct1, THEN mp, OF that(5)] that(6,7)
    by blast
  have A: "isRelated sample_story [(''title'', JStr ''ai breakthroughs'')]"
    by (rule related[of _ "[]" "''AI''" "[]" _ "''ai breakthroughs''" "[]" "'' breakthroughs''"])
      (simp_all add: ev)
  have B: "\<not> isRelated sample_story [(''title'', JStr ''unrelated topic''), (''content'', JStr [])]"
    by (rule unrelated[of _ "[]" "''AI''" "[]"]) (simp_all add: ev)
  have C: "isRelated sample_story
        [(''title'', JStr ''Markets today''), (''content'', JStr ''New AI chips ship'')]"
    by (rule related[of _ "[]" "''AI''" "[]" _ "''New AI chips ship''" "''new ''" "'' chips ship''"])
      (simp_all add: ev)
  have D: "isRelated sample_story
        [(''title'', JStr ''Markets today''), (''summary'', JStr ''Chips for ai'')]"
    by (rule related[of _ "[]" "''AI''" "[]" _ "''Chips for ai''" "''chips for ''" "[]"])
      (simp_all add: ev)
  have D': "\<not> isRelated sample_story
        [(''title'', JStr ''Markets today''), (''description'', JStr ''Chips for ai'')]"
    by (rule unrelated[of _ "[]" "''AI''" "[]"]) (simp_all add: ev)
  have E: "isRelated (sample_story\<lparr>st_keyword := [CHR 0x09, CHR '' ''] @ ''AI'' @ [CHR '' '', CHR 0x0A]\<rparr>)
        [(''title'', JStr ''ai breakthroughs'')]"
    by (rule related[of _ "[CHR 0x09, CHR '' '']" "''AI''" "[CHR '' '', CHR 0x0A]" _
          "''ai breakthroughs''" "[]" "'' breakthroughs''"])
      (simp_all add: ev)
  have E': "\<not> isRelated (sample_story\<lparr>st_keyword := ''A I''\<rparr>) [(''title'', JStr ''ai breakthroughs'')]"
    by (rule unrelated[of _ "[]" "''A I''" "[]"]) (simp_all add: ev)
  have F: "\<not> isRelated (sample_story\<lparr>st_keyword := [CHR '' '', CHR 0x09]\<rparr>) sample_article"
    by (rule blank[of _ "[CHR '' '', CHR 0x09]" "[]"]) (simp_all add: ev)
  have G: "\<not> isRelated (sample_story\<lparr>st_keyword := []\<rparr>) sample_article"
    by (rule blank[of _ "[]" "[]"]) (simp_all add: ev)
  have H: "isRelated sample_story [(''title'', JStr ''ai breakthroughs''), (''content'', JNull)]"
    by (rule nullc[of _ "[]" "''AI''" "[]" _ "''ai breakthroughs''" "[]" "'' breakthroughs''"])
      (simp_all add: ev)
  have I: "isRelated (sample_story\<lparr>st_keyword := ''electric vehicles''\<rparr>)
        [(''title'', JStr ''Electric Vehicles surge'')]"
    by (rule related[of _ "[]" "''electric vehicles''" "[]" _ "''Electric Vehicles surge''"
          "[]" "'' surge''"])
      (simp_all add: ev)
  have J: "\<not> isRelated (sample_story\<lparr>st_keyword := ''electric vehicles''\<rparr>)
        [(''title'', JStr ''cooking recipes'')]"
    by (rule unrelated[of _ "[]" "''electric vehicles''" "[]"]) (simp_all add: ev)
  from A B C D D' E E' F G H I J show ?thesis by (intro conjI)
qed


section \<open>Properties of the link table\<close>

lemma link_fields [simp]:
  "article_store (snd (linkStoryArticle sid aid now s)) = article_store s"
  "tracked_stories (snd (linkStoryArticle sid aid now s)) = tracked_stories s"
  "tracked_stories_seq (snd (linkStoryArticle sid aid now s)) = tracked_stories_seq s"
  by (simp_all add: linkStoryArticle_def)





lemma store_unique [simp]:
  "links_unique (s\<lparr>article_store := db\<rparr>) = links_unique s"
  by (simp add: links_unique_def)








lemma sample_created:
  "createTrackedStory sample_provider 7 ''alice'' ''AI'' None init_engine =
     (Inr \<lparr>st_id = 0, st_owner_user_id = ''alice'', st_keyword = ''AI'', st_created_at = 7,
            st_status = ACTIVE, st_source_article_id = None\<rparr>,
      \<lparr>article_store =
         \<lparr>news_articles =
            [\<lparr>row_id = 0, row_title = JStr ''ai breakthroughs'', row_summary = JStr [],
              row_content = JStr [], row_source = JStr ''Example News'',
              row_published_at = JStr ''2025-01-01T00:00:00Z'',
              row_url = JStr ''https://example.org/a'', row_image = JStr []\<rparr>],
          news_articles_seq = 1, user_search_history = []\<rparr>,
       tracked_stories =
         [\<lparr>st_id = 0, st_owner_user_id = ''alice'', st_keyword = ''AI'', st_created_at = 7,
           st_status = ACTIVE, st_source_article_id = None\<rparr>],
       story_article_links = [\<lparr>link_story_id = 0, link_article_id = 0, linked_at = 7\<rparr>],
       tracked_stories_seq = 1\<rparr>)"
  by code_simp



section \<open>Properties of the story operations and their endpoints\<close>

lemma find_after_delete:
  "find (\<lambda>st. st_id st = sid)
     (map (\<lambda>t. if st_id t = sid then t\<lparr>st_status := DELETED\<rparr> else t) xs)
   = map_option (\<lambda>t. t\<lparr>st_status := DELETED\<rparr>) (find (\<lambda>st. st_id st = sid) xs)"
  by (induction xs) simp_all

lemma find_story_None: "find_story sid s = None \<longleftrightarrow> sid \<notin> set (map st_id (tracked_stories s))"
  by (auto simp: find_story_def find_None_iff)

lemma details_None_get:
  "getStoryDetails sid s = None \<Longrightarrow>
   StoryTrackingDetail_get sid s = (error_response 404 ''Tracked story not found'', s)"
  by (simp add: StoryTrackingDetail_get_def)

lemma delete_success:
  assumes "fst (deleteTrackedStory u sid s)"
  shows "getStoryDetails sid (snd (deleteTrackedStory u sid s)) = None"
proof (cases "find_story sid s")
  case None
  with assms show ?thesis by (simp add: deleteTrackedStory_def)
next
  case (Some st)
  with assms have ok: "st_status st = ACTIVE \<and> st_owner_user_id st = u"
    by (simp add: deleteTrackedStory_def split: if_splits)
  let ?s' = "s\<lparr>tracked_stories :=
                     map (\<lambda>t. if st_id t = sid then t\<lparr>st_status := DELETED\<rparr> else t)
                       (tracked_stories s)\<rparr>"
  have del: "deleteTrackedStory u sid s = (True, ?s')"
    using Some ok by (simp add: deleteTrackedStory_def)
  have "find_story sid ?s' = Some (st\<lparr>st_status := DELETED\<rparr>)"
    using Some by (simp add: find_story_def find_after_delete)
  then have "getStoryDetails sid ?s' = None"
    by (simp add: getStoryDetails_def)
  with del show ?thesis by simp
qed

text \<open>
  C7. For a story id that no story has, and for one whose story is DELETED,
  \<open>getStoryDetails\<close> finds nothing and the detail endpoint answers 404 (for a request with
  a valid token, which the decorator lets through). After a successful
  \<open>deleteTrackedStory\<close> the story is not found any more.
\<close>

theorem deleted_story_not_found:
  "(storyId \<notin> set (map st_id (tracked_stories s)) \<longrightarrow>
      getStoryDetails storyId s = None
      \<and> StoryTrackingDetail_get storyId s = (error_response 404 ''Tracked story not found'', s))
   \<and> (find_story storyId s = Some st \<and> st_status st = DELETED \<longrightarrow>
      getStoryDetails storyId s = None
      \<and> StoryTrackingDetail_get storyId s = (error_response 404 ''Tracked story not found'', s))
   \<and> (fst (deleteTrackedStory u storyId s) \<longrightarrow>
      getStoryDetails storyId (snd (deleteTrackedStory u storyId s)) = None
      \<and> StoryTrackingDetail_get storyId (snd (deleteTrackedStory u storyId s))
          = (error_response 404 ''Tracked story not found'', snd (deleteTrackedStory u storyId s)))
   \<and> token_required (Authenticated caller) (\<lambda>user_id. StoryTrackingDetail_get storyId) s
        = StoryTrackingDetail_get storyId s
   \<and> status_code (error_response 404 ''Tracked story not found'') = 404"
proof (intro conjI impI)
  assume "storyId \<notin> set (map st_id (tracked_stories s))"
  then have "find_story storyId s = None" by (simp add: find_story_None)
  then show n: "getStoryDetails storyId s = None"
    by (simp add: getStoryDetails_def)
  then show "StoryTrackingDetail_get storyId s
      = (error_response 404 ''Tracked story not found'', s)"
    by (rule details_None_get)
next
  assume "find_story storyId s = Some st \<and> st_status st = DELETED"
  then show n: "getStoryDetails storyId s = None"
    by (simp add: getStoryDetails_def)
  then show "StoryTrackingDetail_get storyId s
      = (error_response 404 ''Tracked story not found'', s)"
    by (rule details_None_get)
next
  assume "fst (deleteTrackedStory u storyId s)"
  then show n: "getStoryDetails storyId (snd (deleteTrackedStory u storyId s)) = None"
    by (rule delete_success)
  then show "StoryTrackingDetail_get storyId (snd (deleteTrackedStory u storyId s))
          = (error_response 404 ''Tracked story not found'', snd (deleteTrackedStory u storyId s))"
    by (rule details_None_get)
next
  show "token_required (Authenticated caller) (\<lambda>user_id. StoryTrackingDetail_get storyId) s
        = StoryTrackingDetail_get storyId s"
    by (simp add: token_required_def)
next
  show "status_code (error_response 404 ''Tracked story not found'') = 404"
    by (simp add: error_response_def)
qed

lemma sample_deleted:
  "deleteTrackedStory ''alice'' 0
     (snd (createTrackedStory sample_provider 7 ''alice'' ''AI'' None init_engine))
   = (True,
      \<lparr>article_store =
         \<lparr>news_articles =
            [\<lparr>row_id = 0, row_title = JStr ''ai breakthroughs'', row_summary = JStr [],
              row_content = JStr [], row_source = JStr ''Example News'',
              row_published_at = JStr ''2025-01-01T00:00:00Z'',
              row_url = JStr ''https://example.org/a'', row_image = JStr []\<rparr>],
          news_articles_seq = 1, user_search_history = []\<rparr>,
       tracked_stories =
         [\<lparr>st_id = 0, st_owner_user_id = ''alice'', st_keyword = ''AI'', st_created_at = 7,
           st_status = DELETED, st_source_article_id = None\<rparr>],
       story_article_links = [\<lparr>link_story_id = 0, link_article_id = 0, linked_at = 7\<rparr>],
       tracked_stories_seq = 1\<rparr>)"
  by code_simp

theorem deleted_story_not_found_witness:
  "5 \<notin> set (map st_id (tracked_stories
       (snd (createTrackedStory sample_provider 7 ''alice'' ''AI'' None init_engine))))
   \<and> getStoryDetails 5
        (snd (createTrackedStory sample_provider 7 ''alice'' ''AI'' None init_engine)) = None
   \<and> fst (deleteTrackedStory ''alice'' 0
        (snd (createTrackedStory sample_provider 7 ''alice'' ''AI'' None init_engine)))
   \<and> getStoryDetails 0 (snd (deleteTrackedStory ''alice'' 0
        (snd (createTrackedStory sample_provider 7 ''alice'' ''AI'' None init_engine)))) = None
   \<and> fst (StoryTrackingDetail_get 0 (snd (deleteTrackedStory ''alice'' 0
        (snd (createTrackedStory sample_provider 7 ''alice'' ''AI'' None init_engine)))))
      = error_response 404 ''Tracked story not found''
   \<and> fst (StoryTrackingDetail_get 0 (snd (deleteTrackedStory ''bob'' 0
        (snd (deleteTrackedStory ''alice'' 0
        (snd (createTrackedStory sample_provider 7 ''alice'' ''AI'' None init_engine)))))))
      = error_response 404 ''Tracked story not found''"
proof -
  let ?s = "snd (createTrackedStory sample_provider 7 ''alice'' ''AI'' None init_engine)"
  let ?d = "snd (deleteTrackedStory ''alice'' 0 ?s)"
  let ?st = "\<lparr>st_id = 0, st_owner_user_id = ''alice'', st_keyword = ''AI'', st_created_at = 7,
           st_status = DELETED, st_source_article_id = None\<rparr>"
  have a: "5 \<notin> set (map st_id (tracked_stories ?s))"
    unfolding sample_created by simp
  have b: "fst (deleteTrackedStory ''alice'' 0 ?s)"
    unfolding sample_deleted by simp
  have c: "find_story 0 ?d = Some ?st \<and> st_status ?st = DELETED"
    unfolding sample_deleted by (simp add: find_story_def)
  have e: "deleteTrackedStory ''bob'' 0 ?d = (False, ?d)"
    unfolding sample_deleted by (simp add: deleteTrackedStory_def find_story_def)
  note T1 = deleted_story_not_found[of 5 ?s, THEN conjunct1, THEN mp, OF a]
  note T2 = deleted_story_not_found[of 0 ?s _ "''alice''",
      THEN conjunct2, THEN conjunct2, THEN conjunct1, THEN mp, OF b]
  note T3 = deleted_story_not_found[of 0 ?d ?st, THEN conjunct2, THEN conjunct1, THEN mp, OF c]
  have f: "fst (StoryTrackingDetail_get 0 ?d) = error_response 404 ''Tracked story not found''"
    unfolding T2[THEN conjunct2] by simp
  have g: "fst (StoryTrackingDetail_get 0 (snd (deleteTrackedStory ''bob'' 0 ?d)))
      = error_response 404 ''Tracked story not found''"
    unfolding e snd_conv T3[THEN conjunct2] by simp
  from a T1[THEN conjunct1] b T2[THEN conjunct1] f g show ?thesis
    by (intro conjI)
qed


lemma delete_missing:
  "storyId \<notin> set (map st_id (tracked_stories s)) \<Longrightarrow> deleteTrackedStory u storyId s = (False, s)"
proof -
  assume "storyId \<notin> set (map st_id (tracked_stories s))"
  then have "find_story storyId s = None" by (simp add: find_story_None)
  then show ?thesis by (simp add: deleteTrackedStory_def)
qed

lemma delete_not_owner:
  "find_story storyId s = Some st \<Longrightarrow> st_owner_user_id st \<noteq> u \<Longrightarrow>
   deleteTrackedStory u storyId s = (False, s)"
  by (simp add: deleteTrackedStory_def)

lemma delete_endpoint_False:
  "deleteTrackedStory u storyId s = (False, s) \<Longrightarrow>
   StoryTrackingDetail_delete storyId u s =
     (error_response 404 ''Failed to delete tracked story or story not found'', s)"
  by (simp add: StoryTrackingDetail_delete_def)

text \<open>
  C8. \<open>deleteTrackedStory\<close> returns false, with the state untouched, when no story has the
  id and when the story belongs to another user; the story then keeps its status. In both
  cases the delete endpoint gives the same 404 response, so the two cases look alike to the
  caller.
\<close>

theorem delete_ownership_isolation:
  "(storyId \<notin> set (map st_id (tracked_stories s)) \<longrightarrow>
      deleteTrackedStory u storyId s = (False, s)
      \<and> StoryTrackingDetail_delete storyId u s =
          (error_response 404 ''Failed to delete tracked story or story not found'', s))
   \<and> (find_story storyId s' = Some st \<and> st_owner_user_id st \<noteq> u \<longrightarrow>
      deleteTrackedStory u storyId s' = (False, s')
      \<and> StoryTrackingDetail_delete storyId u s' =
          (error_response 404 ''Failed to delete tracked story or story not found'', s')
      \<and> find_story storyId (snd (deleteTrackedStory u storyId s')) = Some st
      \<and> (st_status st = ACTIVE \<longrightarrow>
           (\<exists>st'. find_story storyId (snd (StoryTrackingDetail_delete storyId u s')) = Some st'
                  \<and> st_status st' = ACTIVE)))
   \<and> (storyId \<notin> set (map st_id (tracked_stories s))
        \<and> find_story storyId s' = Some st \<and> st_owner_user_id st \<noteq> u \<longrightarrow>
      fst (StoryTrackingDetail_delete storyId u s) = fst (StoryTrackingDetail_delete storyId u s')
      \<and> fst (token_required (Authenticated u) (StoryTrackingDetail_delete storyId) s)
          = fst (token_required (Authenticated u) (StoryTrackingDetail_delete storyId) s'))"
proof (intro conjI impI)
  assume m: "storyId \<notin> set (map st_id (tracked_stories s))"
  then show d: "deleteTrackedStory u storyId s = (False, s)"
    by (rule delete_missing)
  then show "StoryTrackingDetail_delete storyId u s =
          (error_response 404 ''Failed to delete tracked story or story not found'', s)"
    by (rule delete_endpoint_False)
next
  assume o: "find_story storyId s' = Some st \<and> st_owner_user_id st \<noteq> u"
  then show d: "deleteTrackedStory u storyId s' = (False, s')"
    by (simp add: delete_not_owner)
  then show e: "StoryTrackingDetail_delete storyId u s' =
          (error_response 404 ''Failed to delete tracked story or story not found'', s')"
    by (rule delete_endpoint_False)
  from d o show "find_story storyId (snd (deleteTrackedStory u storyId s')) = Some st"
    by simp
  assume "st_status st = ACTIVE"
  with e o show "\<exists>st'. find_story storyId (snd (StoryTrackingDetail_delete storyId u s')) = Some st'
                  \<and> st_status st' = ACTIVE"
    by simp
next
  assume h: "storyId \<notin> set (map st_id (tracked_stories s))
        \<and> find_story storyId s' = Some st \<and> st_owner_user_id st \<noteq> u"
  have a: "StoryTrackingDetail_delete storyId u s =
          (error_response 404 ''Failed to delete tracked story or story not found'', s)"
    using h by (simp add: delete_missing delete_endpoint_False)
  have b: "StoryTrackingDetail_delete storyId u s' =
          (error_response 404 ''Failed to delete tracked story or story not found'', s')"
    using h by (simp add: delete_not_owner delete_endpoint_False)
  show "fst (StoryTrackingDetail_delete storyId u s) = fst (StoryTrackingDetail_delete storyId u s')"
    unfolding a b by simp
  show "fst (token_required (Authenticated u) (StoryTrackingDetail_delete storyId) s)
          = fst (token_required (Authenticated u) (StoryTrackingDetail_delete storyId) s')"
    unfolding token_required_def auth.case a b by simp
qed

theorem delete_ownership_isolation_witness:
  "0 \<notin> set (map st_id (tracked_stories init_engine))
   \<and> deleteTrackedStory ''bob'' 0 init_engine = (False, init_engine)
   \<and> deleteTrackedStory ''bob'' 0
        (snd (createTrackedStory sample_provider 7 ''alice'' ''AI'' None init_engine))
      = (False, snd (createTrackedStory sample_provider 7 ''alice'' ''AI'' None init_engine))
   \<and> (\<exists>st'. find_story 0 (snd (StoryTrackingDetail_delete 0 ''bob''
                (snd (createTrackedStory sample_provider 7 ''alice'' ''AI'' None init_engine))))
              = Some st' \<and> st_status st' = ACTIVE)
   \<and> fst (StoryTrackingDetail_delete 0 ''bob'' init_engine)
      = fst (StoryTrackingDetail_delete 0 ''bob''
           (snd (createTrackedStory sample_provider 7 ''alice'' ''AI'' None init_engine)))"
proof -
  let ?s = "snd (createTrackedStory sample_provider 7 ''alice'' ''AI'' None init_engine)"
  let ?st = "\<lparr>st_id = 0, st_owner_user_id = ''alice'', st_keyword = ''AI'', st_created_at = 7,
           st_status = ACTIVE, st_source_article_id = None\<rparr>"
  have m: "0 \<notin> set (map st_id (tracked_stories init_engine))"
    by (simp add: init_engine_def)
  have o: "find_story 0 ?s = Some ?st \<and> st_owner_user_id ?st \<noteq> ''bob''"
    unfolding sample_created by (simp add: find_story_def)
  have act: "st_status ?st = ACTIVE" by simp
  note T = delete_ownership_isolation[of 0 init_engine "''bob''" ?s ?st]
  note a = T[THEN conjunct1, THEN mp, OF m]
  note b = T[THEN conjunct2, THEN conjunct1, THEN mp, OF o]
  note c = T[THEN conjunct2, THEN conjunct2, THEN mp, OF conjI[OF m o]]
  note b4 = b[THEN conjunct2, THEN conjunct2, THEN conjunct2, THEN mp, OF act]
  from m a[THEN conjunct1] b[THEN conjunct1] b4 c[THEN conjunct1] show ?thesis
    by (intro conjI)
qed


lemma match_candidates_stories:
  "tracked_stories (snd (match_candidates story now cs seen new s)) = tracked_stories s"
proof (induction cs arbitrary: seen new s)
  case Nil
  show ?case by simp
next
  case (Cons a cs)
  obtain res db where st: "store_article_in_supabase a (article_store s) = (res, db)"
    by (cases "store_article_in_supabase a (article_store s)")
  show ?case
  proof (cases res)
    case (Inl e)
    with st show ?thesis by simp
  next
    case (Inr articleId)
    let ?s1 = "s\<lparr>article_store := db\<rparr>"
    show ?thesis
    proof (cases "isRelated story a")
      case False
      with st Inr Cons.IH[of _ _ ?s1] show ?thesis by simp
    next
      case True
      obtain lr s' where l: "linkStoryArticle (st_id story) articleId now ?s1 = (lr, s')"
        by (cases "linkStoryArticle (st_id story) articleId now ?s1")
      have "tracked_stories s' = tracked_stories s"
        using link_fields(2)[of "st_id story" articleId now ?s1] l by simp
      with Cons.IH[of _ _ s'] st Inr True l show ?thesis by (cases lr) simp_all
    qed
  qed
qed

lemma refresh_story_stories:
  "tracked_stories (snd (refresh_story api now story s)) = tracked_stories s"
  by (simp add: refresh_story_def match_candidates_stories split: sum.splits)

lemma create_stories:
  assumes "kw \<noteq> []"
  shows "tracked_stories (snd (createTrackedStory api now userId kw src s)) =
     tracked_stories s @
       [\<lparr>st_id = tracked_stories_seq s, st_owner_user_id = userId, st_keyword = kw,
         st_created_at = now, st_status = ACTIVE, st_source_article_id = src\<rparr>]"
proof -
  let ?story = "\<lparr>st_id = tracked_stories_seq s, st_owner_user_id = userId,
                      st_keyword = kw, st_created_at = now, st_status = ACTIVE,
                      st_source_article_id = src\<rparr>"
  let ?s1 = "s\<lparr>tracked_stories := tracked_stories s @ [?story],
                    tracked_stories_seq := Suc (tracked_stories_seq s)\<rparr>"
  let ?s2 = "case src of None \<Rightarrow> ?s1
             | Some articleId \<Rightarrow> snd (linkStoryArticle (st_id ?story) articleId now ?s1)"
  have s2: "tracked_stories ?s2 = tracked_stories s @ [?story]"
    by (cases src) simp_all
  have "snd (createTrackedStory api now userId kw src s) = snd (refresh_story api now ?story ?s2)"
    using assms
    by (simp add: createTrackedStory_def Let_def split_beta split: pass_report.splits)
  then show ?thesis
    by (simp only: refresh_story_stories s2)
qed

lemma create_returns:
  assumes "kw \<noteq> []" "fst (createTrackedStory api now userId kw src s) = Inr story"
  shows "story = \<lparr>st_id = tracked_stories_seq s, st_owner_user_id = userId, st_keyword = kw,
         st_created_at = now, st_status = ACTIVE, st_source_article_id = src\<rparr>"
  using assms
  by (simp add: createTrackedStory_def Let_def split_beta split: pass_report.splits)

text \<open>
  C9. With a missing or empty keyword the create endpoint answers 400 and the state is as
  before; \<open>createTrackedStory\<close> itself fails with \<open>InvalidInput\<close> and creates nothing.
  With a non-empty keyword the story is added to the table in state ACTIVE, owned by the caller,
  through the service and through the endpoint; the story returned is that ACTIVE story.
\<close>

theorem create_validates_keyword:
  "(not_keyword (req_keyword data) \<longrightarrow>
      StoryTracking_post api now data u s = (error_response 400 ''Keyword is required'', s))
   \<and> status_code (error_response 400 ''Keyword is required'') = 400
   \<and> createTrackedStory api now u [] src s = (Inl InvalidInput, s)
   \<and> (kw \<noteq> [] \<longrightarrow>
        tracked_stories (snd (createTrackedStory api now u kw src s)) =
          tracked_stories s @
            [\<lparr>st_id = tracked_stories_seq s, st_owner_user_id = u, st_keyword = kw,
              st_created_at = now, st_status = ACTIVE, st_source_article_id = src\<rparr>])
   \<and> (kw \<noteq> [] \<and> fst (createTrackedStory api now u kw src s) = Inr story \<longrightarrow>
        st_status story = ACTIVE \<and> st_keyword story = kw \<and> st_owner_user_id story = u
        \<and> story \<in> set (tracked_stories (snd (createTrackedStory api now u kw src s))))
   \<and> (kw \<noteq> [] \<and> req_keyword data = Some kw \<longrightarrow>
        snd (StoryTracking_post api now data u s)
          = snd (createTrackedStory api now u kw (req_sourceArticleId data) s))"
proof (intro conjI impI)
  assume "not_keyword (req_keyword data)"
  then show "StoryTracking_post api now data u s = (error_response 400 ''Keyword is required'', s)"
    by (simp add: StoryTracking_post_def)
next
  show "status_code (error_response 400 ''Keyword is required'') = 400"
    by (simp add: error_response_def)
next
  show "createTrackedStory api now u [] src s = (Inl InvalidInput, s)"
    by (simp add: createTrackedStory_def)
next
  assume "kw \<noteq> []"
  then show "tracked_stories (snd (createTrackedStory api now u kw src s)) =
          tracked_stories s @
            [\<lparr>st_id = tracked_stories_seq s, st_owner_user_id = u, st_keyword = kw,
              st_created_at = now, st_status = ACTIVE, st_source_article_id = src\<rparr>]"
    by (rule create_stories)
next
  assume h: "kw \<noteq> [] \<and> fst (createTrackedStory api now u kw src s) = Inr story"
  have eq: "story = \<lparr>st_id = tracked_stories_seq s, st_owner_user_id = u, st_keyword = kw,
         st_created_at = now, st_status = ACTIVE, st_source_article_id = src\<rparr>"
    by (rule create_returns[OF h[THEN conjunct1] h[THEN conjunct2]])
  show "st_status story = ACTIVE" "st_keyword story = kw" "st_owner_user_id story = u"
    unfolding eq by simp_all
  show "story \<in> set (tracked_stories (snd (createTrackedStory api now u kw src s)))"
    using h unfolding eq by (simp add: create_stories)
next
  assume h: "kw \<noteq> [] \<and> req_keyword data = Some kw"
  obtain res s' where c: "createTrackedStory api now u kw (req_sourceArticleId data) s = (res, s')"
    by (cases "createTrackedStory api now u kw (req_sourceArticleId data) s")
  show "snd (StoryTracking_post api now data u s)
          = snd (createTrackedStory api now u kw (req_sourceArticleId data) s)"
    using h c by (cases res) (simp_all add: StoryTracking_post_def)
qed

theorem create_validates_keyword_witness:
  "not_keyword (req_keyword \<lparr>req_keyword = Some [], req_sourceArticleId = None\<rparr>)
   \<and> StoryTracking_post sample_provider 7 \<lparr>req_keyword = Some [], req_sourceArticleId = None\<rparr>
        ''alice'' init_engine
      = (error_response 400 ''Keyword is required'', init_engine)
   \<and> StoryTracking_post sample_provider 7 \<lparr>req_keyword = None, req_sourceArticleId = Some 3\<rparr>
        ''alice'' init_engine
      = (error_response 400 ''Keyword is required'', init_engine)
   \<and> tracked_stories (snd (createTrackedStory sample_provider 7 ''alice'' ''AI'' None init_engine))
      = tracked_stories init_engine @
          [\<lparr>st_id = tracked_stories_seq init_engine, st_owner_user_id = ''alice'',
            st_keyword = ''AI'', st_created_at = 7, st_status = ACTIVE,
            st_source_article_id = None\<rparr>]
   \<and> st_status (sample_story\<lparr>st_created_at := 7\<rparr>) = ACTIVE
   \<and> (sample_story\<lparr>st_created_at := 7\<rparr>)
        \<in> set (tracked_stories
             (snd (createTrackedStory sample_provider 7 ''alice'' ''AI'' None init_engine)))
   \<and> snd (StoryTracking_post sample_provider 7 \<lparr>req_keyword = Some ''AI'', req_sourceArticleId = None\<rparr>
        ''alice'' init_engine)
      = snd (createTrackedStory sample_provider 7 ''alice'' ''AI'' None init_engine)"
proof -
  let ?e = "\<lparr>req_keyword = Some [], req_sourceArticleId = None\<rparr>"
  let ?n = "\<lparr>req_keyword = None, req_sourceArticleId = Some 3\<rparr>"
  let ?k = "\<lparr>req_keyword = Some ''AI'', req_sourceArticleId = None\<rparr>"
  let ?st = "sample_story\<lparr>st_created_at := 7\<rparr>"
  have ne: "not_keyword (req_keyword ?e)" by simp
  have nn: "not_keyword (req_keyword ?n)" by simp
  have kw: "''AI'' \<noteq> []" by simp
  have ret: "''AI'' \<noteq> [] \<and>
      fst (createTrackedStory sample_provider 7 ''alice'' ''AI'' None init_engine) = Inr ?st"
    unfolding sample_created by (simp add: sample_story_def)
  have rq: "''AI'' \<noteq> [] \<and> req_keyword ?k = Some ''AI''" by simp
  note a = create_validates_keyword[of ?e sample_provider 7 "''alice''" init_engine,
      THEN conjunct1, THEN mp, OF ne]
  note b = create_validates_keyword[of ?n sample_provider 7 "''alice''" init_engine,
      THEN conjunct1, THEN mp, OF nn]
  note T = create_validates_keyword[of ?k sample_provider 7 "''alice''" init_engine None "''AI''" ?st]
  note c = T[THEN conjunct2, THEN conjunct2, THEN conjunct2, THEN conjunct1, THEN mp, OF kw]
  note d = T[THEN conjunct2, THEN conjunct2, THEN conjunct2, THEN conjunct2, THEN conjunct1,
      THEN mp, OF ret]
  have e: "snd (StoryTracking_post sample_provider 7 ?k ''alice'' init_engine)
      = snd (createTrackedStory sample_provider 7 ''alice'' ''AI'' None init_engine)"
    using T[THEN conjunct2, THEN conjunct2, THEN conjunct2, THEN conjunct2, THEN conjunct2,
      THEN mp, OF rq] by simp
  from ne a b c d[THEN conjunct1]
    d[THEN conjunct2, THEN conjunct2, THEN conjunct2] e
  show ?thesis by (intro conjI)
qed

end
